theory Spec2Isabelle
  imports Complex_Main "HOL-Library.AList" "HOL-Library.Multiset"
begin

section \<open>The WebSocket transport of unreal-rc\<close>

text \<open>
  A shallow embedding of \<^verbatim>\<open>packages/core/src/transports/ws.ts\<close> (class
  \<^verbatim>\<open>WebSocketTransport\<close>) and of the batch code of \<^verbatim>\<open>packages/core/src/client.ts\<close>
  (\<^verbatim>\<open>BatchBuilder.add\<close>, \<^verbatim>\<open>correlateBatchResponses\<close>).

  The private fields of the class are the fields of a record; every method and every event
  handler is a function from the state to the next state. What the code does to the outside
  (writing a frame, settling the promise of a call, arming or clearing a timer, closing the
  socket) is appended to the field \<open>effects\<close>, in the order in which the code does it.
  The identifiers, the request timeouts, the ping interval and the queue size, which the
  code only compares, stores and increments, are modelled as \<open>int\<close>; the three numbers of
  the backoff, on which the code computes with \<^verbatim>\<open>**\<close>, \<^verbatim>\<open>*\<close> and \<^verbatim>\<open>Math.min\<close>, are
  modelled as \<open>js_number\<close> below. A JSON value is a value of the type parameter \<open>'b\<close>,
  and an optional value (\<^verbatim>\<open>undefined\<close>) is \<open>None\<close>.
\<close>

subsection \<open>Data\<close>

datatype HttpVerb = GET | PUT | POST | PATCH | DELETE

datatype ready_state = CONNECTING | OPEN | CLOSING | CLOSED

datatype disconnected_behavior = Queue | Reject

text \<open>
  The browser's \<^verbatim>\<open>WebSocket\<close> object is not part of the repository. The transport reads
  its \<^verbatim>\<open>readyState\<close> and calls \<^verbatim>\<open>send\<close> and \<^verbatim>\<open>close\<close>. The socket carries a script of
  what its next calls of \<^verbatim>\<open>send\<close> will do: whether the call returns (\<open>True\<close>) or throws
  (\<open>False\<close>), and the \<^verbatim>\<open>readyState\<close> the socket shows afterwards. A socket whose script is
  used up accepts every frame and keeps its state.
\<close>

record WebSocket =
  readyState :: ready_state
  script :: "(bool \<times> ready_state) list"

definition socket_send :: "WebSocket \<Rightarrow> bool \<times> WebSocket" where
  "socket_send w =
     (case script w of
        [] \<Rightarrow> (True, w)
      | (ok, rs) # rest \<Rightarrow> (ok, w\<lparr>readyState := rs, script := rest\<rparr>))"

text \<open>
  \<^verbatim>\<open>TransportRequestError\<close>, one constructor for each message the transport builds:
  \<^item> \<open>CannotConnectDisposed\<close>: "Cannot connect a disposed transport"
  \<^item> \<open>ConnectTimedOut\<close>: "WebSocket connect timed out"
  \<^item> \<open>ClosedDuringConnect\<close>: "WebSocket closed during connect"
  \<^item> \<open>ErrorDuringConnect\<close>: "WebSocket error during connect"
  \<^item> \<open>Disconnected\<close>: "WebSocket is disconnected"
  \<^item> \<open>QueueLimitReached n\<close>: "WebSocket queue limit reached (n); request rejected"
  \<^item> \<open>DisconnectedNoAutoReconnect\<close>: "WebSocket is disconnected and auto-reconnect is disabled"
  \<^item> \<open>TransportDisposed\<close>: "Transport disposed"
  \<^item> \<open>DisconnectedBeforeResponse\<close>: "WebSocket disconnected before responses were received"
  \<^item> \<open>NotConnected\<close>: "WebSocket is not connected"
  \<^item> \<open>FailedToSend\<close>: "Failed to send WebSocket request"
  \<^item> \<open>RequestTimedOut ms\<close>: "WebSocket request timed out after (ms)ms"
  \<^item> \<open>RemoteRequestFailed statusCode details\<close>: "Remote request failed [with status c]"
\<close>

datatype 'b TransportRequestError =
    CannotConnectDisposed
  | ConnectTimedOut
  | ClosedDuringConnect
  | ErrorDuringConnect
  | Disconnected
  | QueueLimitReached int
  | DisconnectedNoAutoReconnect
  | TransportDisposed
  | DisconnectedBeforeResponse
  | NotConnected
  | FailedToSend
  | RequestTimedOut int
  | RemoteRequestFailed "int option" "'b option"

text \<open>
  The body of a call is \<^verbatim>\<open>unknown\<close>: a caller may pass any value. What the transport
  does with it is \<^verbatim>\<open>JSON.stringify\<close>, which returns for a value that has a JSON text
  (\<open>Json b\<close>) and throws a \<^verbatim>\<open>TypeError\<close> for the others (\<open>Unserialisable\<close>: a
  \<^verbatim>\<open>BigInt\<close>, an object that refers to itself, an object whose \<^verbatim>\<open>toJSON\<close> throws).
\<close>

datatype 'b js_body = Json 'b | Unserialisable

text \<open>
  The numbers of the backoff. JavaScript numbers are IEEE doubles; the model keeps a number
  exactly where it is sure of it and says less otherwise:
  \<^item> \<open>Num x\<close> is the double whose value is the rational \<open>x\<close>;
  \<^item> \<open>Huge\<close> is some double that is at least \<open>2 ^ 52\<close>, or \<^verbatim>\<open>Infinity\<close>;
  \<^item> \<open>Other\<close> is a number the model does not determine (\<^verbatim>\<open>NaN\<close> included).

  \<open>representable x\<close> is a sufficient test for \<open>x\<close> being a double: an integer below
  \<open>2 ^ 53\<close> in absolute value, divided by a power of two that is at most \<open>2 ^ 1074\<close>.
  The result of an operation whose exact value passes the test is that value (for \<^verbatim>\<open>*\<close>
  by IEEE 754; for \<^verbatim>\<open>**\<close> this is what the engines do). An exact value that fails the test
  and is at least \<open>2 ^ 53\<close> is rounded to some double that is at least \<open>2 ^ 52\<close>, or
  overflows to \<^verbatim>\<open>Infinity\<close>; every other result is left undetermined.
\<close>

datatype js_number = Num rat | Huge | Other

definition representable :: "rat \<Rightarrow> bool" where
  "representable x = (case quotient_of x of (n, d) \<Rightarrow> \<bar>n\<bar> < 2 ^ 53 \<and> d dvd 2 ^ 1074)"

definition js_round :: "rat \<Rightarrow> js_number" where
  "js_round x = (if representable x then Num x else if x \<ge> 2 ^ 53 then Huge else Other)"

text \<open>\<^verbatim>\<open>x ** a\<close> for a count \<open>a\<close>; \<^verbatim>\<open>x ** 0\<close> is 1 for every \<open>x\<close>.\<close>

fun js_pow :: "js_number \<Rightarrow> nat \<Rightarrow> js_number" where
  "js_pow (Num x) a = js_round (x ^ a)"
| "js_pow Huge a = (if a = 0 then Num 1 else Huge)"
| "js_pow Other a = (if a = 0 then Num 1 else Other)"

text \<open>\<^verbatim>\<open>x * y\<close>\<close>

fun js_mul :: "js_number \<Rightarrow> js_number \<Rightarrow> js_number" where
  "js_mul (Num x) (Num y) = js_round (x * y)"
| "js_mul (Num x) Huge = (if x \<ge> 1 then Huge else Other)"
| "js_mul Huge (Num y) = (if y \<ge> 1 then Huge else Other)"
| "js_mul Huge Huge = Huge"
| "js_mul Other y = Other"
| "js_mul x Other = Other"

text \<open>\<^verbatim>\<open>Math.min(x, y)\<close>\<close>

fun js_min :: "js_number \<Rightarrow> js_number \<Rightarrow> js_number" where
  "js_min (Num x) (Num y) = Num (min x y)"
| "js_min (Num x) Huge = (if x \<le> 2 ^ 52 then Num x else Other)"
| "js_min Huge (Num y) = (if y \<le> 2 ^ 52 then Num y else Other)"
| "js_min Huge Huge = Huge"
| "js_min Other y = Other"
| "js_min x Other = Other"

text \<open>
  \<^verbatim>\<open>OutboundRequest\<close>. The callbacks \<^verbatim>\<open>resolve\<close> and \<^verbatim>\<open>reject\<close> settle the promise
  that \<^verbatim>\<open>request\<close> returned; calling them is the effect \<open>Resolve\<close> or \<open>RejectCall\<close> with the
  \<open>requestId\<close> of the request. \<open>timer\<close> says whether \<^verbatim>\<open>request.timer\<close> is set.
\<close>

record 'b OutboundRequest =
  requestId :: int
  verb :: HttpVerb
  url :: string
  body :: "'b js_body option"
  timeoutMs :: int
  timer :: bool

text \<open>
  The envelope \<^verbatim>\<open>{MessageName: "http", Parameters: {RequestId, Url, Verb, Body?}}\<close>, and
  whether \<^verbatim>\<open>JSON.stringify\<close> throws on it: the other members are a number and two strings.
\<close>

datatype 'b envelope = HttpEnvelope int string HttpVerb "'b js_body option"

fun stringify_throws :: "'b envelope \<Rightarrow> bool" where
  "stringify_throws (HttpEnvelope i u v b) = (b = Some Unserialisable)"

datatype 'b effect =
    Send "'b envelope"
  | SendPing
  | Resolve int "'b option"
  | RejectCall int "'b TransportRequestError"
  | SetTimeout int int
  | ClearTimeout int
  | SetReconnectTimer js_number
  | ClearReconnectTimer
  | SetPingInterval int
  | ClearPingInterval
  | NewWebSocket
  | CloseSocket
  | ConnectResolved
  | ConnectRejected "'b TransportRequestError"

text \<open>
  The handlers chained on the promise of a connection attempt with \<^verbatim>\<open>.catch\<close>: the one
  \<^verbatim>\<open>request\<close> attaches after buffering a call, and the one of the reconnect timer.
\<close>

datatype catch_handler = RequestCatch | ReconnectCatch

record 'b WebSocketTransport =
  requestTimeoutMs :: int
  pingIntervalMs :: int
  autoReconnect :: bool
  reconnectInitialDelayMs :: js_number
  reconnectMaxDelayMs :: js_number
  reconnectBackoffFactor :: js_number
  disconnectedBehavior :: disconnected_behavior
  maxQueueSize :: int
  socket :: "WebSocket option"
  connectPromise :: "catch_handler list option"
  reconnectTimer :: "js_number option"
  pingTimer :: bool
  reconnectAttempt :: nat
  nextRequestId :: int
  disposed :: bool
  connectedState :: bool
  pendingRequests :: "(int \<times> 'b OutboundRequest) list"
  queuedRequests :: "'b OutboundRequest list"
  effects :: "'b effect list"

text \<open>
  \<open>connectPromise\<close> is \<open>None\<close> when the field is \<^verbatim>\<open>undefined\<close> and \<open>Some hs\<close> while an
  attempt is in flight, \<open>hs\<close> being the \<^verbatim>\<open>.catch\<close> handlers attached to it so far.
  \<open>reconnectTimer\<close> holds the delay the pending timer was armed with. \<open>pendingRequests\<close> is
  the JavaScript \<^verbatim>\<open>Map\<close>, in insertion order: \<open>map_of\<close> is \<^verbatim>\<open>get\<close>, \<open>AList.update\<close> is
  \<^verbatim>\<open>set\<close> and \<open>AList.delete\<close> is \<^verbatim>\<open>delete\<close>. Two fields of the class are left out:
  \<^verbatim>\<open>url\<close>, which is only handed to the \<^verbatim>\<open>WebSocket\<close> constructor, and
  \<^verbatim>\<open>connectTimeoutMs\<close>, which is only the delay of the timer whose firing is the failure
  \<open>ConnectTimeout\<close> of an attempt.
\<close>

record WebSocketTransportOptions =
  opt_requestTimeoutMs :: "int option"
  opt_pingIntervalMs :: "int option"
  opt_autoReconnect :: "bool option"
  opt_reconnectInitialDelayMs :: "js_number option"
  opt_reconnectMaxDelayMs :: "js_number option"
  opt_reconnectBackoffFactor :: "js_number option"
  opt_disconnectedBehavior :: "disconnected_behavior option"
  opt_maxQueueSize :: "int option"

definition DEFAULT_REQUEST_TIMEOUT_MS :: int where "DEFAULT_REQUEST_TIMEOUT_MS = 15000"
definition DEFAULT_PING_INTERVAL_MS :: int where "DEFAULT_PING_INTERVAL_MS = 25000"
definition DEFAULT_RECONNECT_INITIAL_DELAY_MS :: js_number where
  "DEFAULT_RECONNECT_INITIAL_DELAY_MS = Num 250"
definition DEFAULT_RECONNECT_MAX_DELAY_MS :: js_number where
  "DEFAULT_RECONNECT_MAX_DELAY_MS = Num 5000"
definition DEFAULT_RECONNECT_BACKOFF_FACTOR :: js_number where
  "DEFAULT_RECONNECT_BACKOFF_FACTOR = Num 2"
definition DEFAULT_MAX_QUEUE_SIZE :: int where "DEFAULT_MAX_QUEUE_SIZE = 500"

definition no_options :: WebSocketTransportOptions where
  "no_options = \<lparr>opt_requestTimeoutMs = None, opt_pingIntervalMs = None,
     opt_autoReconnect = None, opt_reconnectInitialDelayMs = None,
     opt_reconnectMaxDelayMs = None, opt_reconnectBackoffFactor = None,
     opt_disconnectedBehavior = None, opt_maxQueueSize = None\<rparr>"

text \<open>The constructor: \<^verbatim>\<open>options.x ?? DEFAULT_X\<close> for every option, and the field initialisers.\<close>

definition new_WebSocketTransport :: "WebSocketTransportOptions \<Rightarrow> 'b WebSocketTransport" where
  "new_WebSocketTransport options =
     \<lparr>requestTimeoutMs = case_option DEFAULT_REQUEST_TIMEOUT_MS id (opt_requestTimeoutMs options),
      pingIntervalMs = case_option DEFAULT_PING_INTERVAL_MS id (opt_pingIntervalMs options),
      autoReconnect = case_option True id (opt_autoReconnect options),
      reconnectInitialDelayMs =
        case_option DEFAULT_RECONNECT_INITIAL_DELAY_MS id (opt_reconnectInitialDelayMs options),
      reconnectMaxDelayMs =
        case_option DEFAULT_RECONNECT_MAX_DELAY_MS id (opt_reconnectMaxDelayMs options),
      reconnectBackoffFactor =
        case_option DEFAULT_RECONNECT_BACKOFF_FACTOR id (opt_reconnectBackoffFactor options),
      disconnectedBehavior = case_option Queue id (opt_disconnectedBehavior options),
      maxQueueSize = case_option DEFAULT_MAX_QUEUE_SIZE id (opt_maxQueueSize options),
      socket = None,
      connectPromise = None,
      reconnectTimer = None,
      pingTimer = False,
      reconnectAttempt = 0,
      nextRequestId = 1,
      disposed = False,
      connectedState = False,
      pendingRequests = [],
      queuedRequests = [],
      effects = []\<rparr>"

subsection \<open>Timers\<close>

definition stopPing :: "'b WebSocketTransport \<Rightarrow> 'b WebSocketTransport" where
  "stopPing s =
     (if pingTimer s
      then s\<lparr>pingTimer := False, effects := effects s @ [ClearPingInterval]\<rparr>
      else s)"

definition startPing :: "'b WebSocketTransport \<Rightarrow> 'b WebSocketTransport" where
  "startPing s =
     (let s1 = stopPing s in
      if pingIntervalMs s1 \<le> 0 then s1
      else s1\<lparr>pingTimer := True,
              effects := effects s1 @ [SetPingInterval (pingIntervalMs s1)]\<rparr>)"

text \<open>
  A tick of the ping interval, which does not fire once cleared: the ping frame is written
  if the socket is open, and a \<^verbatim>\<open>send\<close> that throws is ignored.
\<close>

definition onPingTick :: "'b WebSocketTransport \<Rightarrow> 'b WebSocketTransport" where
  "onPingTick s =
     (if \<not> pingTimer s then s
      else
        (case socket s of
           None \<Rightarrow> s
         | Some w \<Rightarrow>
             if readyState w \<noteq> OPEN then s
             else
               (case socket_send w of
                  (ok, w') \<Rightarrow>
                    s\<lparr>socket := Some w',
                      effects := effects s @ (if ok then [SendPing] else [])\<rparr>)))"

text \<open>
  \<^verbatim>\<open>Math.min(initial * factor ** attempt, max)\<close>, the delay \<^verbatim>\<open>scheduleReconnect\<close> computes.
\<close>

definition reconnectDelay :: "'b WebSocketTransport \<Rightarrow> js_number" where
  "reconnectDelay s =
     js_min (js_mul (reconnectInitialDelayMs s)
                    (js_pow (reconnectBackoffFactor s) (reconnectAttempt s)))
            (reconnectMaxDelayMs s)"

definition scheduleReconnect :: "'b WebSocketTransport \<Rightarrow> 'b WebSocketTransport" where
  "scheduleReconnect s =
     (if \<not> autoReconnect s \<or> disposed s \<or> reconnectTimer s \<noteq> None then s
      else
        let delay = reconnectDelay s in
        s\<lparr>reconnectAttempt := reconnectAttempt s + 1,
          reconnectTimer := Some delay,
          effects := effects s @ [SetReconnectTimer delay]\<rparr>)"

subsection \<open>Rejecting the calls of the map and of the queue\<close>

text \<open>One turn of the loop of \<^verbatim>\<open>rejectPendingRequests\<close>, and of \<^verbatim>\<open>rejectQueuedRequests\<close>.\<close>

definition rejectPending_step ::
  "'b TransportRequestError \<Rightarrow> 'b effect list \<Rightarrow> 'b OutboundRequest \<Rightarrow> 'b effect list" where
  "rejectPending_step err es r =
     (if timer r then es @ [ClearTimeout (requestId r)] else es) @ [RejectCall (requestId r) err]"

definition rejectPendingRequests ::
  "'b TransportRequestError \<Rightarrow> 'b WebSocketTransport \<Rightarrow> 'b WebSocketTransport" where
  "rejectPendingRequests err s =
     s\<lparr>effects := foldl (rejectPending_step err) (effects s) (map snd (pendingRequests s)),
       pendingRequests := []\<rparr>"

definition rejectQueued_step ::
  "'b TransportRequestError \<Rightarrow> 'b effect list \<Rightarrow> 'b OutboundRequest \<Rightarrow> 'b effect list" where
  "rejectQueued_step err es r = es @ [RejectCall (requestId r) err]"

definition rejectQueuedRequests ::
  "'b TransportRequestError \<Rightarrow> 'b WebSocketTransport \<Rightarrow> 'b WebSocketTransport" where
  "rejectQueuedRequests err s =
     s\<lparr>effects := foldl (rejectQueued_step err) (effects s) (queuedRequests s),
       queuedRequests := []\<rparr>"

subsection \<open>Sending\<close>

text \<open>\<^verbatim>\<open>this.socket?.readyState === WebSocket.OPEN\<close>\<close>

definition socketOpen :: "'b WebSocketTransport \<Rightarrow> bool" where
  "socketOpen s = (case socket s of None \<Rightarrow> False | Some w \<Rightarrow> readyState w = OPEN)"

definition envelopeOf :: "'b OutboundRequest \<Rightarrow> 'b envelope" where
  "envelopeOf r = HttpEnvelope (requestId r) (url r) (verb r) (body r)"

text \<open>
  \<^verbatim>\<open>sendRequest\<close>. The argument of \<^verbatim>\<open>send\<close> is evaluated first: when
  \<^verbatim>\<open>JSON.stringify\<close> throws, \<^verbatim>\<open>send\<close> is not called, and the \<^verbatim>\<open>catch\<close> rejects the call
  as it does when \<^verbatim>\<open>send\<close> throws.
\<close>

definition sendRequest ::
  "'b OutboundRequest \<Rightarrow> 'b WebSocketTransport \<Rightarrow> 'b WebSocketTransport" where
  "sendRequest r s =
     (case socket s of
        None \<Rightarrow> s\<lparr>effects := effects s @ [RejectCall (requestId r) NotConnected]\<rparr>
      | Some w \<Rightarrow>
          if readyState w \<noteq> OPEN
          then s\<lparr>effects := effects s @ [RejectCall (requestId r) NotConnected]\<rparr>
          else if stringify_throws (envelopeOf r)
          then s\<lparr>effects := effects s @ [RejectCall (requestId r) FailedToSend]\<rparr>
          else
            (case socket_send w of
               (False, w') \<Rightarrow>
                 s\<lparr>socket := Some w',
                   effects := effects s @ [RejectCall (requestId r) FailedToSend]\<rparr>
             | (True, w') \<Rightarrow>
                 s\<lparr>socket := Some w',
                   effects := effects s @
                     [Send (envelopeOf r), SetTimeout (requestId r) (timeoutMs r)],
                   pendingRequests :=
                     AList.update (requestId r) (r\<lparr>timer := True\<rparr>) (pendingRequests s)\<rparr>))"

text \<open>
  The callback of the timeout timer that \<^verbatim>\<open>sendRequest\<close> arms for a request. The timer of
  a request is cleared whenever its entry leaves the map, so the callback runs only for an
  id that still has its entry.
\<close>

definition onRequestTimeout :: "int \<Rightarrow> 'b WebSocketTransport \<Rightarrow> 'b WebSocketTransport" where
  "onRequestTimeout i s =
     (case map_of (pendingRequests s) i of
        None \<Rightarrow> s
      | Some r \<Rightarrow>
          s\<lparr>pendingRequests := AList.delete (requestId r) (pendingRequests s),
            effects := effects s @
              [RejectCall (requestId r) (RequestTimedOut (timeoutMs r))]\<rparr>)"

text \<open>
  \<^verbatim>\<open>flushQueuedRequests\<close>: the loop takes the head of the queue, puts it back and stops
  when the channel is not open, and sends it otherwise. (\<^verbatim>\<open>shift\<close> on a non-empty array of
  requests never yields \<^verbatim>\<open>undefined\<close>, so the first \<^verbatim>\<open>break\<close> is never taken.)
\<close>

function flushQueuedRequests :: "'b WebSocketTransport \<Rightarrow> 'b WebSocketTransport" where
  "flushQueuedRequests s =
     (case queuedRequests s of
        [] \<Rightarrow> s
      | next # rest \<Rightarrow>
          (let s1 = s\<lparr>queuedRequests := rest\<rparr> in
           if \<not> connectedState s1 \<or> \<not> socketOpen s1
           then s1\<lparr>queuedRequests := next # queuedRequests s1\<rparr>
           else flushQueuedRequests (sendRequest next s1)))"
  by pat_completeness auto
termination
  by (relation "measure (\<lambda>s. length (queuedRequests s))")
     (auto simp: sendRequest_def split: option.splits prod.splits bool.splits)

declare flushQueuedRequests.simps [simp del]

subsection \<open>Connecting\<close>

text \<open>
  What a call of \<^verbatim>\<open>connect\<close> gives back: a promise rejected at once (the \<^verbatim>\<open>throw\<close> of the
  async function), a promise resolved at once (already connected), or the promise of the
  attempt in flight.
\<close>

datatype 'b connect_result = Threw "'b TransportRequestError" | Returned | InFlight

definition connect :: "'b WebSocketTransport \<Rightarrow> 'b connect_result \<times> 'b WebSocketTransport" where
  "connect s =
     (if disposed s then (Threw CannotConnectDisposed, s)
      else if connectedState s then (Returned, s)
      else
        (case connectPromise s of
           Some hs \<Rightarrow> (InFlight, s)
         | None \<Rightarrow>
             (InFlight, s\<lparr>connectPromise := Some [], effects := effects s @ [NewWebSocket]\<rparr>)))"

text \<open>The bodies of the two \<^verbatim>\<open>.catch\<close> handlers.\<close>

definition run_catch :: "'b WebSocketTransport \<Rightarrow> catch_handler \<Rightarrow> 'b WebSocketTransport" where
  "run_catch s h =
     (case h of
        RequestCatch \<Rightarrow>
          if \<not> autoReconnect s then rejectQueuedRequests DisconnectedNoAutoReconnect s else s
      | ReconnectCatch \<Rightarrow> scheduleReconnect s)"

text \<open>
  \<^verbatim>\<open>void this.connect().catch(h)\<close>: the handler runs if the promise is rejected, at once
  when \<^verbatim>\<open>connect\<close> threw, and is kept with the attempt while that is in flight.
\<close>

definition connect_catch :: "catch_handler \<Rightarrow> 'b WebSocketTransport \<Rightarrow> 'b WebSocketTransport" where
  "connect_catch h s =
     (case connect s of
        (Threw e, s1) \<Rightarrow> run_catch s1 h
      | (Returned, s1) \<Rightarrow> s1
      | (InFlight, s1) \<Rightarrow>
          s1\<lparr>connectPromise := map_option (\<lambda>hs. hs @ [h]) (connectPromise s1)\<rparr>)"

text \<open>
  The four ways the attempt in flight settles. Each runs inside \<^verbatim>\<open>finalize\<close>, which does
  nothing once the attempt is settled; the promise's \<^verbatim>\<open>finally\<close> clears \<open>connectPromise\<close>
  before any \<^verbatim>\<open>.catch\<close> handler runs. \<open>onOpen\<close> takes the socket that opened.
\<close>

definition attachSocket :: "WebSocket \<Rightarrow> 'b WebSocketTransport \<Rightarrow> 'b WebSocketTransport" where
  "attachSocket w s = s\<lparr>socket := Some w\<rparr>"

definition onOpen :: "WebSocket \<Rightarrow> 'b WebSocketTransport \<Rightarrow> 'b WebSocketTransport" where
  "onOpen w s =
     (case connectPromise s of
        None \<Rightarrow> s
      | Some hs \<Rightarrow>
          let s1 = attachSocket w s;
              s2 = s1\<lparr>connectedState := True\<rparr>;
              s3 = s2\<lparr>reconnectAttempt := 0\<rparr>;
              s4 = startPing s3;
              s5 = flushQueuedRequests s4
          in s5\<lparr>connectPromise := None, effects := effects s5 @ [ConnectResolved]\<rparr>)"

datatype connect_failure = ConnectTimeout | CloseBeforeOpen | ErrorBeforeOpen

definition connect_error :: "connect_failure \<Rightarrow> 'b TransportRequestError" where
  "connect_error f =
     (case f of
        ConnectTimeout \<Rightarrow> ConnectTimedOut
      | CloseBeforeOpen \<Rightarrow> ClosedDuringConnect
      | ErrorBeforeOpen \<Rightarrow> ErrorDuringConnect)"

definition onConnectFailure ::
  "connect_failure \<Rightarrow> 'b WebSocketTransport \<Rightarrow> 'b WebSocketTransport" where
  "onConnectFailure f s =
     (case connectPromise s of
        None \<Rightarrow> s
      | Some hs \<Rightarrow>
          let s1 = (if f = CloseBeforeOpen then s
                    else s\<lparr>effects := effects s @ [CloseSocket]\<rparr>);
              s2 = scheduleReconnect s1;
              s3 = s2\<lparr>connectPromise := None,
                      effects := effects s2 @ [ConnectRejected (connect_error f)]\<rparr>
          in foldl run_catch s3 hs)"

text \<open>The callback of the reconnect timer; a cleared timer does not fire.\<close>

definition onReconnectTimer :: "'b WebSocketTransport \<Rightarrow> 'b WebSocketTransport" where
  "onReconnectTimer s =
     (case reconnectTimer s of
        None \<Rightarrow> s
      | Some d \<Rightarrow> connect_catch ReconnectCatch (s\<lparr>reconnectTimer := None\<rparr>))"

subsection \<open>The public methods and the handlers of the attached socket\<close>

text \<open>
  \<^verbatim>\<open>request(verb, url, body, options)\<close>; the last argument is \<^verbatim>\<open>options?.timeoutMs\<close>. The
  promise it returns is the one the effects name by the value of \<open>nextRequestId\<close> before
  the call.
\<close>

definition request ::
  "HttpVerb \<Rightarrow> string \<Rightarrow> 'b js_body option \<Rightarrow> int option \<Rightarrow> 'b WebSocketTransport \<Rightarrow> 'b WebSocketTransport" where
  "request v u b t s =
     (let timeoutMs' = (case t of None \<Rightarrow> requestTimeoutMs s | Some ms \<Rightarrow> ms);
          requestId' = nextRequestId s;
          s1 = s\<lparr>nextRequestId := nextRequestId s + 1\<rparr>;
          outbound = \<lparr>requestId = requestId', verb = v, url = u, body = b,
                      timeoutMs = timeoutMs', timer = False\<rparr>
      in
        if connectedState s1 \<and> socketOpen s1 then sendRequest outbound s1
        else if disconnectedBehavior s1 = Reject
        then s1\<lparr>effects := effects s1 @ [RejectCall requestId' Disconnected]\<rparr>
        else if int (length (queuedRequests s1)) \<ge> maxQueueSize s1
        then s1\<lparr>effects := effects s1 @
                  [RejectCall requestId' (QueueLimitReached (maxQueueSize s1))]\<rparr>
        else connect_catch RequestCatch
               (s1\<lparr>queuedRequests := queuedRequests s1 @ [outbound]\<rparr>))"

definition dispose :: "'b WebSocketTransport \<Rightarrow> 'b WebSocketTransport" where
  "dispose s =
     (let s1 = s\<lparr>disposed := True\<rparr>;
          s2 = s1\<lparr>connectedState := False\<rparr>;
          s3 = stopPing s2;
          s4 = (case reconnectTimer s3 of
                  None \<Rightarrow> s3
                | Some d \<Rightarrow> s3\<lparr>reconnectTimer := None,
                               effects := effects s3 @ [ClearReconnectTimer]\<rparr>);
          s5 = rejectPendingRequests TransportDisposed s4;
          s6 = rejectQueuedRequests TransportDisposed s5
      in
        case socket s6 of
          None \<Rightarrow> s6
        | Some w \<Rightarrow>
            (if readyState w = OPEN \<or> readyState w = CONNECTING
             then s6\<lparr>effects := effects s6 @ [CloseSocket]\<rparr>
             else s6)\<lparr>socket := None\<rparr>)"

text \<open>
  What \<^verbatim>\<open>onMessage\<close> gets: \<open>NoText\<close> when \<^verbatim>\<open>raw\<close> is falsy (data that is neither a string
  nor an \<^verbatim>\<open>ArrayBuffer\<close>, or the empty string), \<open>Unparseable\<close> when \<^verbatim>\<open>JSON.parse\<close> throws,
  \<open>JsonNull\<close> when it yields \<^verbatim>\<open>null\<close> (reading a property of it throws a \<^verbatim>\<open>TypeError\<close>),
  and otherwise \<open>Payload requestId responseCode responseBody\<close>: the fields \<^verbatim>\<open>RequestId\<close> and
  \<^verbatim>\<open>ResponseCode\<close> after the conversion to a number, \<open>None\<close> when \<^verbatim>\<open>Number.isFinite\<close> is
  false of it, and the field \<^verbatim>\<open>ResponseBody\<close>.
\<close>

datatype 'b MessageEvent =
    NoText
  | Unparseable
  | JsonNull
  | Payload "int option" "int option" "'b option"

datatype js_error = TypeError

definition onMessage ::
  "'b MessageEvent \<Rightarrow> 'b WebSocketTransport \<Rightarrow> js_error + 'b WebSocketTransport" where
  "onMessage ev s =
     (case ev of
        NoText \<Rightarrow> Inr s
      | Unparseable \<Rightarrow> Inr s
      | JsonNull \<Rightarrow> Inl TypeError
      | Payload rid code rbody \<Rightarrow>
          (case rid of
             None \<Rightarrow> Inr s
           | Some i \<Rightarrow>
               (case map_of (pendingRequests s) i of
                  None \<Rightarrow> Inr s
                | Some pending \<Rightarrow>
                    let s1 = s\<lparr>pendingRequests := AList.delete i (pendingRequests s)\<rparr>;
                        s2 = (if timer pending
                              then s1\<lparr>effects := effects s1 @ [ClearTimeout (requestId pending)]\<rparr>
                              else s1)
                    in
                      (case code of
                         Some c \<Rightarrow>
                           if c \<ge> 200 \<and> c < 300
                           then Inr (s2\<lparr>effects := effects s2 @
                                         [Resolve (requestId pending) rbody]\<rparr>)
                           else Inr (s2\<lparr>effects := effects s2 @
                                         [RejectCall (requestId pending)
                                            (RemoteRequestFailed (Some c) rbody)]\<rparr>)
                       | None \<Rightarrow>
                           Inr (s2\<lparr>effects := effects s2 @
                                    [RejectCall (requestId pending)
                                       (RemoteRequestFailed None rbody)]\<rparr>)))))"

definition onClose :: "'b WebSocketTransport \<Rightarrow> 'b WebSocketTransport" where
  "onClose s =
     (let s1 = s\<lparr>connectedState := False\<rparr>;
          s2 = stopPing s1;
          s3 = (case socket s2 of None \<Rightarrow> s2 | Some w \<Rightarrow> s2\<lparr>socket := None\<rparr>);
          s4 = rejectPendingRequests DisconnectedBeforeResponse s3
      in if \<not> disposed s4 then scheduleReconnect s4 else s4)"

subsection \<open>Events, and what is observed of the effects\<close>

text \<open>
  What can happen to a transport: a caller calls one of the three public methods, the socket
  of the attempt in flight opens or fails, a timer fires (the reconnect timer, the timeout
  of a request, the ping interval), the attached socket delivers a message or closes, or
  the attached socket changes its \<^verbatim>\<open>readyState\<close>. The
  handlers \<^verbatim>\<open>onMessage\<close> and \<^verbatim>\<open>onClose\<close> are listeners of the attached socket only, and an
  error thrown by a listener does not change the transport.
\<close>

datatype 'b event =
    CallConnect
  | CallRequest HttpVerb string "'b js_body option" "int option"
  | CallDispose
  | SocketOpened WebSocket
  | ConnectFailed connect_failure
  | ReconnectTimerFired
  | RequestTimeoutFired int
  | PingTick
  | MessageReceived "'b MessageEvent"
  | SocketClosed
  | SocketState ready_state

fun step :: "'b event \<Rightarrow> 'b WebSocketTransport \<Rightarrow> 'b WebSocketTransport" where
  "step CallConnect s = snd (connect s)"
| "step (CallRequest v u b t) s = request v u b t s"
| "step CallDispose s = dispose s"
| "step (SocketOpened w) s = onOpen w s"
| "step (ConnectFailed f) s = onConnectFailure f s"
| "step ReconnectTimerFired s = onReconnectTimer s"
| "step (RequestTimeoutFired i) s = onRequestTimeout i s"
| "step PingTick s = onPingTick s"
| "step (MessageReceived ev) s =
     (case socket s of
        None \<Rightarrow> s
      | Some w \<Rightarrow> (case onMessage ev s of Inl e \<Rightarrow> s | Inr s' \<Rightarrow> s'))"
| "step SocketClosed s = (case socket s of None \<Rightarrow> s | Some w \<Rightarrow> onClose s)"
| "step (SocketState rs) s =
     (case socket s of None \<Rightarrow> s | Some w \<Rightarrow> s\<lparr>socket := Some (w\<lparr>readyState := rs\<rparr>)\<rparr>)"

definition run :: "'b event list \<Rightarrow> 'b WebSocketTransport \<Rightarrow> 'b WebSocketTransport" where
  "run evs s = foldl (\<lambda>s' e. step e s') s evs"

inductive reachable :: "'b WebSocketTransport \<Rightarrow> bool" where
  reachable_new: "reachable (new_WebSocketTransport options)"
| reachable_step: "reachable s \<Longrightarrow> reachable (step e s)"

text \<open>How a call was settled, and the projections of the effects the properties speak of.\<close>

datatype 'b outcome = Fulfilled "'b option" | Failed "'b TransportRequestError"

fun settlements :: "'b effect list \<Rightarrow> (int \<times> 'b outcome) list" where
  "settlements [] = []"
| "settlements (Resolve i b # es) = (i, Fulfilled b) # settlements es"
| "settlements (RejectCall i e # es) = (i, Failed e) # settlements es"
| "settlements (_ # es) = settlements es"

fun frames :: "'b effect list \<Rightarrow> 'b envelope list" where
  "frames [] = []"
| "frames (Send env # es) = env # frames es"
| "frames (_ # es) = frames es"

fun cleared_timeouts :: "'b effect list \<Rightarrow> int list" where
  "cleared_timeouts [] = []"
| "cleared_timeouts (ClearTimeout i # es) = i # cleared_timeouts es"
| "cleared_timeouts (_ # es) = cleared_timeouts es"

fun scheduled_delays :: "'b effect list \<Rightarrow> js_number list" where
  "scheduled_delays [] = []"
| "scheduled_delays (SetReconnectTimer d # es) = d # scheduled_delays es"
| "scheduled_delays (_ # es) = scheduled_delays es"

fun connect_rejections :: "'b effect list \<Rightarrow> 'b TransportRequestError list" where
  "connect_rejections [] = []"
| "connect_rejections (ConnectRejected e # es) = e # connect_rejections es"
| "connect_rejections (_ # es) = connect_rejections es"


text \<open>
  A run of failed attempts: the attempt in flight fails, and the reconnect timer it armed
  fires and starts the next attempt.
\<close>

fun failed_attempts ::
  "connect_failure list \<Rightarrow> 'b WebSocketTransport \<Rightarrow> 'b WebSocketTransport" where
  "failed_attempts [] s = s"
| "failed_attempts (f # fs) s = failed_attempts fs (onReconnectTimer (onConnectFailure f s))"

text \<open>Several calls submitted one after the other.\<close>

fun submit_all ::
  "(HttpVerb \<times> string \<times> 'b js_body option \<times> int option) list \<Rightarrow> 'b WebSocketTransport
     \<Rightarrow> 'b WebSocketTransport" where
  "submit_all [] s = s"
| "submit_all ((v, u, b, t) # calls) s = submit_all calls (request v u b t s)"

text \<open>
  The request that \<^verbatim>\<open>request\<close> builds: its id is the value of \<open>nextRequestId\<close> at the
  call.
\<close>

definition outboundOf ::
  "HttpVerb \<Rightarrow> string \<Rightarrow> 'b js_body option \<Rightarrow> int option \<Rightarrow> 'b WebSocketTransport \<Rightarrow> 'b OutboundRequest" where
  "outboundOf v u b t s =
     \<lparr>requestId = nextRequestId s, verb = v, url = u, body = b,
      timeoutMs = (case t of None \<Rightarrow> requestTimeoutMs s | Some ms \<Rightarrow> ms), timer = False\<rparr>"

text \<open>The state in which \<open>onOpen\<close> starts the flush.\<close>

definition opened :: "WebSocket \<Rightarrow> 'b WebSocketTransport \<Rightarrow> 'b WebSocketTransport" where
  "opened w s = startPing (s\<lparr>socket := Some w, connectedState := True, reconnectAttempt := 0\<rparr>)"

text \<open>The state \<open>onClose\<close> hands to \<open>scheduleReconnect\<close>.\<close>

definition closed :: "'b WebSocketTransport \<Rightarrow> 'b WebSocketTransport" where
  "closed s =
     rejectPendingRequests DisconnectedBeforeResponse
       ((stopPing (s\<lparr>connectedState := False\<rparr>))\<lparr>socket := None\<rparr>)"

text \<open>What the backoff depends on, and the delays scheduled so far.\<close>

definition backoff_state ::
  "'b WebSocketTransport \<Rightarrow>
     bool \<times> bool \<times> js_number option \<times> nat \<times> js_number \<times> js_number \<times> js_number \<times>
     js_number list" where
  "backoff_state s =
     (autoReconnect s, disposed s, reconnectTimer s, reconnectAttempt s,
      reconnectInitialDelayMs s, reconnectBackoffFactor s, reconnectMaxDelayMs s,
      scheduled_delays (effects s))"

text \<open>
  The delays scheduled since the attempt count was last set to 0 are those of the backoff
  formula for the counts \<open>0, 1, ...\<close> up to the present one.
\<close>

definition backoff_inv :: "'b WebSocketTransport \<Rightarrow> bool" where
  "backoff_inv s =
     (let ds = scheduled_delays (effects s); a = reconnectAttempt s in
      a \<le> length ds \<and>
      drop (length ds - a) ds =
        map (\<lambda>k. js_min (js_mul (reconnectInitialDelayMs s)
                                   (js_pow (reconnectBackoffFactor s) k))
                           (reconnectMaxDelayMs s)) [0..<a])"

text \<open>What a call asks for, read off a buffered request and off a frame.\<close>

definition call_of :: "'b OutboundRequest \<Rightarrow> HttpVerb \<times> string \<times> 'b js_body option" where
  "call_of r = (verb r, url r, body r)"

fun frame_call :: "'b envelope \<Rightarrow> HttpVerb \<times> string \<times> 'b js_body option" where
  "frame_call (HttpEnvelope i u v b) = (v, u, b)"

fun frame_id :: "'b envelope \<Rightarrow> int" where
  "frame_id (HttpEnvelope i u v b) = i"

section \<open>Batches\<close>

text \<open>
  \<^verbatim>\<open>BatchRequestItem\<close>, \<^verbatim>\<open>BatchResponseItem\<close> and \<^verbatim>\<open>BatchResult\<close> of \<^verbatim>\<open>types.ts\<close> and
  \<^verbatim>\<open>client.ts\<close>. A response that was not validated may lack \<^verbatim>\<open>ResponseCode\<close>, so the
  field is optional here, as \<^verbatim>\<open>matched?.ResponseCode ?? 0\<close> allows.
\<close>

record 'b BatchRequestItem =
  RequestId :: int
  URL :: string
  Verb :: HttpVerb
  Body :: "'b option"

record 'b BatchResponseItem =
  response_RequestId :: int
  ResponseCode :: "int option"
  ResponseBody :: "'b option"

record 'b BatchResult =
  result_requestId :: int
  statusCode :: int
  result_body :: "'b option"
  result_request :: "'b BatchRequestItem"

datatype zod_error = ZodError

text \<open>
  \<^verbatim>\<open>BatchRequestItemSchema.parse\<close>: \<^verbatim>\<open>RequestId\<close> a non-negative integer, \<^verbatim>\<open>URL\<close> a
  non-empty string, \<^verbatim>\<open>Verb\<close> one of the five verbs (the type has no other value).
\<close>

definition BatchRequestItemSchema_parse :: "'b BatchRequestItem \<Rightarrow> zod_error + 'b BatchRequestItem" where
  "BatchRequestItemSchema_parse item =
     (if RequestId item \<ge> 0 \<and> length (URL item) \<ge> 1 then Inr item else Inl ZodError)"

text \<open>
  \<^verbatim>\<open>BatchBuilder\<close> has the one field \<^verbatim>\<open>requests\<close>; the builder is that list. \<open>add\<close> gives
  back the id and the builder with the entry pushed, or the error \<^verbatim>\<open>parse\<close> throws, the
  builder then being as it was.
\<close>

type_synonym 'b BatchBuilder = "'b BatchRequestItem list"

definition add ::
  "HttpVerb \<Rightarrow> string \<Rightarrow> 'b option \<Rightarrow> 'b BatchBuilder \<Rightarrow> zod_error + (int \<times> 'b BatchBuilder)" where
  "add v u b requests =
     (let requestId' = int (length requests) in
      case BatchRequestItemSchema_parse \<lparr>RequestId = requestId', URL = u, Verb = v, Body = b\<rparr> of
        Inl e \<Rightarrow> Inl e
      | Inr entry \<Rightarrow> Inr (requestId', requests @ [entry]))"

text \<open>
  A run of calls of the builder, each of which ends in \<open>add\<close>; a call that throws leaves
  the builder unchanged and the caller goes on. The ids handed out are collected.
\<close>

fun add_all ::
  "(HttpVerb \<times> string \<times> 'b option) list \<Rightarrow> 'b BatchBuilder \<Rightarrow> int list \<times> 'b BatchBuilder" where
  "add_all [] requests = ([], requests)"
| "add_all ((v, u, b) # calls) requests =
     (case add v u b requests of
        Inl e \<Rightarrow> add_all calls requests
      | Inr (i, requests') \<Rightarrow>
          (case add_all calls requests' of (ids, requests'') \<Rightarrow> (i # ids, requests'')))"

text \<open>\<^verbatim>\<open>getRequests\<close> copies the list; \<^verbatim>\<open>toRequestBody\<close> parses every entry again.\<close>

definition getRequests :: "'b BatchBuilder \<Rightarrow> 'b BatchRequestItem list" where
  "getRequests requests = requests"

fun parse_items :: "'b BatchRequestItem list \<Rightarrow> zod_error + 'b BatchRequestItem list" where
  "parse_items [] = Inr []"
| "parse_items (item # items) =
     (case BatchRequestItemSchema_parse item of
        Inl e \<Rightarrow> Inl e
      | Inr item' \<Rightarrow>
          (case parse_items items of Inl e \<Rightarrow> Inl e | Inr items' \<Rightarrow> Inr (item' # items')))"

definition toRequestBody :: "'b BatchBuilder \<Rightarrow> zod_error + 'b BatchRequestItem list" where
  "toRequestBody requests = parse_items requests"

text \<open>
  \<^verbatim>\<open>correlateBatchResponses\<close>: the loop fills the map \<^verbatim>\<open>byRequestId\<close>, a later entry with
  the same id replacing an earlier one; the argument is \<^verbatim>\<open>response.Responses\<close>, \<open>None\<close> when
  the response has none.
\<close>

definition byRequestId ::
  "'b BatchResponseItem list \<Rightarrow> (int \<rightharpoonup> 'b BatchResponseItem)" where
  "byRequestId items = foldl (\<lambda>m item. m(response_RequestId item \<mapsto> item)) Map.empty items"

definition correlateBatchResponses ::
  "'b BatchRequestItem list \<Rightarrow> 'b BatchResponseItem list option \<Rightarrow> 'b BatchResult list" where
  "correlateBatchResponses requests responses =
     (let m = byRequestId (case responses of None \<Rightarrow> [] | Some items \<Rightarrow> items) in
      map (\<lambda>request'.
             let matched = m (RequestId request') in
             \<lparr>result_requestId = RequestId request',
              statusCode =
                (case matched of
                   None \<Rightarrow> 0
                 | Some item \<Rightarrow> (case ResponseCode item of None \<Rightarrow> 0 | Some c \<Rightarrow> c)),
              result_body = (case matched of None \<Rightarrow> None | Some item \<Rightarrow> ResponseBody item),
              result_request = request'\<rparr>)
          requests)"

section \<open>Example states\<close>

text \<open>A socket that is open and accepts every frame.\<close>

definition example_socket :: WebSocket where
  "example_socket = \<lparr>readyState = OPEN, script = []\<rparr>"

text \<open>
  A transport made with the default options, connected, that has sent three calls and got
  no answer yet: the state after \<^verbatim>\<open>connect()\<close>, the socket opening, and three calls of
  \<^verbatim>\<open>request\<close>.
\<close>

definition example_three_pending :: "string WebSocketTransport" where
  "example_three_pending =
     \<lparr>requestTimeoutMs = 15000, pingIntervalMs = 25000, autoReconnect = True,
      reconnectInitialDelayMs = Num 250, reconnectMaxDelayMs = Num 5000,
      reconnectBackoffFactor = Num 2, disconnectedBehavior = Queue,
      maxQueueSize = 500, socket = Some \<lparr>readyState = OPEN, script = []\<rparr>,
      connectPromise = None, reconnectTimer = None, pingTimer = True,
      reconnectAttempt = 0, nextRequestId = 4, disposed = False,
      connectedState = True,
      pendingRequests =
        [(1, \<lparr>requestId = 1, verb = GET, url = ''/remote/info'', body = None,
               timeoutMs = 15000, timer = True\<rparr>),
         (2, \<lparr>requestId = 2, verb = PUT, url = ''/remote/object/call'',
               body = Some (Json ''{}''), timeoutMs = 50, timer = True\<rparr>),
         (3, \<lparr>requestId = 3, verb = PUT, url = ''/remote/object/property'',
               body = Some (Json ''{}''), timeoutMs = 15000, timer = True\<rparr>)],
      queuedRequests = [],
      effects =
        [NewWebSocket, SetPingInterval 25000, ConnectResolved,
         Send (HttpEnvelope 1 ''/remote/info'' GET None), SetTimeout 1 15000,
         Send (HttpEnvelope 2 ''/remote/object/call'' PUT (Some (Json ''{}''))),
         SetTimeout 2 50,
         Send (HttpEnvelope 3 ''/remote/object/property'' PUT (Some (Json ''{}''))),
         SetTimeout 3 15000]\<rparr>"

text \<open>A transport just made with the default options.\<close>

definition example_new :: "string WebSocketTransport" where
  "example_new =
     \<lparr>requestTimeoutMs = 15000, pingIntervalMs = 25000, autoReconnect = True,
      reconnectInitialDelayMs = Num 250, reconnectMaxDelayMs = Num 5000,
      reconnectBackoffFactor = Num 2, disconnectedBehavior = Queue,
      maxQueueSize = 500, socket = None,
      connectPromise = None, reconnectTimer = None, pingTimer = False,
      reconnectAttempt = 0, nextRequestId = 1, disposed = False,
      connectedState = False, pendingRequests = [], queuedRequests = [], effects = []\<rparr>"

text \<open>
  A transport with room for two calls in its queue, just made, and the same transport after
  two calls were submitted: both are buffered and the first connection attempt is in flight.
\<close>

definition example_capacity_two :: "string WebSocketTransport" where
  "example_capacity_two = example_new\<lparr>maxQueueSize := 2\<rparr>"

definition example_queue_full :: "string WebSocketTransport" where
  "example_queue_full =
     \<lparr>requestTimeoutMs = 15000, pingIntervalMs = 25000, autoReconnect = True,
      reconnectInitialDelayMs = Num 250, reconnectMaxDelayMs = Num 5000,
      reconnectBackoffFactor = Num 2, disconnectedBehavior = Queue,
      maxQueueSize = 2, socket = None,
      connectPromise = Some [RequestCatch, RequestCatch], reconnectTimer = None,
      pingTimer = False, reconnectAttempt = 0, nextRequestId = 3, disposed = False,
      connectedState = False, pendingRequests = [],
      queuedRequests =
        [\<lparr>requestId = 1, verb = GET, url = ''/remote/info'', body = None,
          timeoutMs = 15000, timer = False\<rparr>,
         \<lparr>requestId = 2, verb = PUT, url = ''/remote/object/call'', body = Some (Json ''{}''),
          timeoutMs = 15000, timer = False\<rparr>],
      effects = [NewWebSocket]\<rparr>"

text \<open>A socket that opens, accepts two frames, and is closing after the second.\<close>

definition example_closing_socket :: WebSocket where
  "example_closing_socket = \<lparr>readyState = OPEN, script = [(True, OPEN), (True, CLOSING)]\<rparr>"

text \<open>A transport with the default options, three calls buffered, an attempt in flight.\<close>

definition example_buffered :: "string WebSocketTransport" where
  "example_buffered =
     \<lparr>requestTimeoutMs = 15000, pingIntervalMs = 25000, autoReconnect = True,
      reconnectInitialDelayMs = Num 250, reconnectMaxDelayMs = Num 5000,
      reconnectBackoffFactor = Num 2, disconnectedBehavior = Queue,
      maxQueueSize = 500, socket = None,
      connectPromise = Some [RequestCatch, RequestCatch, RequestCatch], reconnectTimer = None,
      pingTimer = False, reconnectAttempt = 0, nextRequestId = 4, disposed = False,
      connectedState = False, pendingRequests = [],
      queuedRequests =
        [\<lparr>requestId = 1, verb = GET, url = ''/remote/info'', body = None,
          timeoutMs = 15000, timer = False\<rparr>,
         \<lparr>requestId = 2, verb = PUT, url = ''/remote/object/call'', body = Some (Json ''{}''),
          timeoutMs = 15000, timer = False\<rparr>,
         \<lparr>requestId = 3, verb = PUT, url = ''/remote/object/property'', body = Some (Json ''{}''),
          timeoutMs = 15000, timer = False\<rparr>],
      effects = [NewWebSocket]\<rparr>"

definition example_calls ::
  "(HttpVerb \<times> string \<times> string js_body option \<times> int option) list" where
  "example_calls =
     [(GET, ''/remote/info'', None, None),
      (PUT, ''/remote/object/call'', Some (Json ''{}''), None)]"

text \<open>A transport with the default options after \<^verbatim>\<open>connect()\<close>: the first attempt is in flight.\<close>

definition example_connecting :: "string WebSocketTransport" where
  "example_connecting =
     \<lparr>requestTimeoutMs = 15000, pingIntervalMs = 25000, autoReconnect = True,
      reconnectInitialDelayMs = Num 250, reconnectMaxDelayMs = Num 5000,
      reconnectBackoffFactor = Num 2, disconnectedBehavior = Queue,
      maxQueueSize = 500, socket = None,
      connectPromise = Some [], reconnectTimer = None, pingTimer = False,
      reconnectAttempt = 0, nextRequestId = 1, disposed = False,
      connectedState = False, pendingRequests = [], queuedRequests = [],
      effects = [NewWebSocket]\<rparr>"

definition example_failures :: "connect_failure list" where
  "example_failures =
     [ConnectTimeout, CloseBeforeOpen, ErrorBeforeOpen, ConnectTimeout, ConnectTimeout,
      CloseBeforeOpen, ErrorBeforeOpen]"

text \<open>
  Three attempts that fail, the second of them started by a call of \<^verbatim>\<open>connect()\<close> while
  the reconnect timer of the first failure is armed.
\<close>

definition example_overlapping_failures :: "string event list" where
  "example_overlapping_failures =
     [ConnectFailed ConnectTimeout, CallConnect, ConnectFailed ErrorBeforeOpen,
      ReconnectTimerFired, ConnectFailed CloseBeforeOpen]"

text \<open>
  The transport after the first two of these events: the reconnect timer of the first
  failure is armed, and the attempt that \<^verbatim>\<open>connect()\<close> started is in flight.
\<close>

definition example_retry_armed :: "string WebSocketTransport" where
  "example_retry_armed =
     \<lparr>requestTimeoutMs = 15000, pingIntervalMs = 25000, autoReconnect = True,
      reconnectInitialDelayMs = Num 250, reconnectMaxDelayMs = Num 5000,
      reconnectBackoffFactor = Num 2, disconnectedBehavior = Queue,
      maxQueueSize = 500, socket = None,
      connectPromise = Some [], reconnectTimer = Some (Num 250), pingTimer = False,
      reconnectAttempt = 1, nextRequestId = 1, disposed = False,
      connectedState = False, pendingRequests = [], queuedRequests = [],
      effects = [NewWebSocket, CloseSocket, SetReconnectTimer (Num 250),
                 ConnectRejected ConnectTimedOut, NewWebSocket]\<rparr>"


text \<open>
  A transport made with a backoff factor of 1.5, after \<^verbatim>\<open>connect()\<close>, and three failures
  of its attempts.
\<close>

definition example_gentle_options :: WebSocketTransportOptions where
  "example_gentle_options = no_options\<lparr>opt_reconnectBackoffFactor := Some (Num (3 / 2))\<rparr>"

definition example_gentle_connecting :: "string WebSocketTransport" where
  "example_gentle_connecting =
     \<lparr>requestTimeoutMs = 15000, pingIntervalMs = 25000, autoReconnect = True,
      reconnectInitialDelayMs = Num 250, reconnectMaxDelayMs = Num 5000,
      reconnectBackoffFactor = Num (3 / 2), disconnectedBehavior = Queue,
      maxQueueSize = 500, socket = None,
      connectPromise = Some [], reconnectTimer = None, pingTimer = False,
      reconnectAttempt = 0, nextRequestId = 1, disposed = False,
      connectedState = False, pendingRequests = [], queuedRequests = [],
      effects = [NewWebSocket]\<rparr>"

definition example_three_failures :: "connect_failure list" where
  "example_three_failures = [ConnectTimeout, CloseBeforeOpen, ErrorBeforeOpen]"



text \<open>
  Three calls, the second with a body that has no JSON text (a \<^verbatim>\<open>BigInt\<close>, say), and the
  transport with the default options that has buffered them.
\<close>

definition example_bigint_calls ::
  "(HttpVerb \<times> string \<times> string js_body option \<times> int option) list" where
  "example_bigint_calls =
     [(GET, ''/remote/info'', None, None),
      (PUT, ''/remote/object/call'', Some Unserialisable, None),
      (PUT, ''/remote/object/property'', Some (Json ''{}''), None)]"

definition example_buffered_bigint :: "string WebSocketTransport" where
  "example_buffered_bigint =
     \<lparr>requestTimeoutMs = 15000, pingIntervalMs = 25000, autoReconnect = True,
      reconnectInitialDelayMs = Num 250, reconnectMaxDelayMs = Num 5000,
      reconnectBackoffFactor = Num 2, disconnectedBehavior = Queue,
      maxQueueSize = 500, socket = None,
      connectPromise = Some [RequestCatch, RequestCatch, RequestCatch], reconnectTimer = None,
      pingTimer = False, reconnectAttempt = 0, nextRequestId = 4, disposed = False,
      connectedState = False, pendingRequests = [],
      queuedRequests =
        [\<lparr>requestId = 1, verb = GET, url = ''/remote/info'', body = None,
          timeoutMs = 15000, timer = False\<rparr>,
         \<lparr>requestId = 2, verb = PUT, url = ''/remote/object/call'', body = Some Unserialisable,
          timeoutMs = 15000, timer = False\<rparr>,
         \<lparr>requestId = 3, verb = PUT, url = ''/remote/object/property'',
          body = Some (Json ''{}''), timeoutMs = 15000, timer = False\<rparr>],
      effects = [NewWebSocket]\<rparr>"

text \<open>
  A batch of two calls, and two responses of the server: one that answers both calls, the
  entries in the other order, and one that answers the second call only.
\<close>

definition example_batch_calls :: "(HttpVerb \<times> string \<times> string option) list" where
  "example_batch_calls =
     [(PUT, ''/remote/object/call'', Some ''reset''),
      (PUT, ''/remote/object/describe'', Some ''actor'')]"

definition example_batch_requests :: "string BatchRequestItem list" where
  "example_batch_requests =
     [\<lparr>RequestId = 0, URL = ''/remote/object/call'', Verb = PUT, Body = Some ''reset''\<rparr>,
      \<lparr>RequestId = 1, URL = ''/remote/object/describe'', Verb = PUT, Body = Some ''actor''\<rparr>]"

definition example_responses :: "string BatchResponseItem list" where
  "example_responses =
     [\<lparr>response_RequestId = 1, ResponseCode = Some 204, ResponseBody = None\<rparr>,
      \<lparr>response_RequestId = 0, ResponseCode = Some 200, ResponseBody = Some ''true''\<rparr>]"

definition example_partial_responses :: "string BatchResponseItem list" where
  "example_partial_responses =
     [\<lparr>response_RequestId = 1, ResponseCode = Some 204, ResponseBody = None\<rparr>]"

section \<open>Lemmas\<close>

subsection \<open>The projections of the effects\<close>

lemma settlements_append [simp]: "settlements (xs @ ys) = settlements xs @ settlements ys"
  by (induction xs rule: settlements.induct) simp_all

lemma frames_append [simp]: "frames (xs @ ys) = frames xs @ frames ys"
  by (induction xs rule: frames.induct) simp_all

lemma cleared_timeouts_append [simp]:
  "cleared_timeouts (xs @ ys) = cleared_timeouts xs @ cleared_timeouts ys"
  by (induction xs rule: cleared_timeouts.induct) simp_all

lemma scheduled_delays_append [simp]:
  "scheduled_delays (xs @ ys) = scheduled_delays xs @ scheduled_delays ys"
  by (induction xs rule: scheduled_delays.induct) simp_all

lemma connect_rejections_append [simp]:
  "connect_rejections (xs @ ys) = connect_rejections xs @ connect_rejections ys"
  by (induction xs rule: connect_rejections.induct) simp_all

lemma foldl_rejectPending_step:
  "foldl (rejectPending_step err) es rs =
     es @ concat (map (\<lambda>r. (if timer r then [ClearTimeout (requestId r)] else []) @
                            [RejectCall (requestId r) err]) rs)"
  by (induction rs arbitrary: es) (simp_all add: rejectPending_step_def)

lemma foldl_rejectQueued_step:
  "foldl (rejectQueued_step err) es rs = es @ map (\<lambda>r. RejectCall (requestId r) err) rs"
  by (induction rs arbitrary: es) (simp_all add: rejectQueued_step_def)

lemma settlements_reject_pending:
  "settlements (concat (map (\<lambda>r. (if timer r then [ClearTimeout (requestId r)] else []) @
                            [RejectCall (requestId r) err]) rs))
   = map (\<lambda>r. (requestId r, Failed err)) rs"
  by (induction rs) simp_all

lemma settlements_reject_queued:
  "settlements (map (\<lambda>r. RejectCall (requestId r) err) rs) = map (\<lambda>r. (requestId r, Failed err)) rs"
  by (induction rs) simp_all

lemma cleared_reject_pending:
  "cleared_timeouts (concat (map (\<lambda>r. (if timer r then [ClearTimeout (requestId r)] else []) @
                            [RejectCall (requestId r) err]) rs))
   = map requestId (filter timer rs)"
  by (induction rs) simp_all

lemma cleared_reject_queued:
  "cleared_timeouts (map (\<lambda>r. RejectCall (requestId r) err) rs) = []"
  by (induction rs) simp_all

lemma frames_reject_pending:
  "frames (concat (map (\<lambda>r. (if timer r then [ClearTimeout (requestId r)] else []) @
                            [RejectCall (requestId r) err]) rs)) = []"
  by (induction rs) simp_all

lemma frames_reject_queued:
  "frames (map (\<lambda>r. RejectCall (requestId r) err) rs) = []"
  by (induction rs) simp_all

lemma delays_reject_pending:
  "scheduled_delays (concat (map (\<lambda>r. (if timer r then [ClearTimeout (requestId r)] else []) @
                            [RejectCall (requestId r) err]) rs)) = []"
  by (induction rs) simp_all

lemma delays_reject_queued:
  "scheduled_delays (map (\<lambda>r. RejectCall (requestId r) err) rs) = []"
  by (induction rs) simp_all

subsection \<open>\<^verbatim>\<open>dispose\<close>\<close>

lemma dispose_fields:
  "disposed (dispose s)" "\<not> connectedState (dispose s)" "\<not> pingTimer (dispose s)"
  "reconnectTimer (dispose s) = None" "pendingRequests (dispose s) = []"
  "queuedRequests (dispose s) = []" "socket (dispose s) = None"
  "connectPromise (dispose s) = connectPromise s"
  "nextRequestId (dispose s) = nextRequestId s"
  by (simp_all add: dispose_def Let_def stopPing_def rejectPendingRequests_def
        rejectQueuedRequests_def split: option.splits)

lemma dispose_effects:
  "effects (dispose s) = effects s
     @ (if pingTimer s then [ClearPingInterval] else [])
     @ (if reconnectTimer s \<noteq> None then [ClearReconnectTimer] else [])
     @ concat (map (\<lambda>r. (if timer r then [ClearTimeout (requestId r)] else []) @
                            [RejectCall (requestId r) TransportDisposed]) (map snd (pendingRequests s)))
     @ map (\<lambda>r. RejectCall (requestId r) TransportDisposed) (queuedRequests s)
     @ (case socket s of None \<Rightarrow> []
        | Some w \<Rightarrow> if readyState w = OPEN \<or> readyState w = CONNECTING then [CloseSocket] else [])"
  by (auto simp: dispose_def Let_def stopPing_def rejectPendingRequests_def
        rejectQueuedRequests_def foldl_rejectPending_step foldl_rejectQueued_step
        split: option.splits)

lemma dispose_noop:
  assumes "disposed s" "\<not> connectedState s" "\<not> pingTimer s" "reconnectTimer s = None"
    "pendingRequests s = []" "queuedRequests s = []" "socket s = None"
  shows "dispose s = s"
  using assms
  by (simp add: dispose_def Let_def stopPing_def rejectPendingRequests_def
        rejectQueuedRequests_def)

lemma dispose_idem: "dispose (dispose s) = dispose s"
  by (rule dispose_noop) (simp_all add: dispose_fields)

subsection \<open>\<^verbatim>\<open>onMessage\<close>\<close>

lemma map_of_delete_same: "map_of (AList.delete k al) k = None"
  by (simp add: delete_conv)

lemma onMessage_unknown:
  "map_of (pendingRequests s) i = None \<Longrightarrow> onMessage (Payload (Some i) code rbody) s = Inr s"
  by (simp add: onMessage_def)

lemma onMessage_pending_after:
  "onMessage (Payload (Some i) code rbody) s = Inr s' \<Longrightarrow> map_of (pendingRequests s') i = None"
  by (auto simp: onMessage_def Let_def map_of_delete_same split: option.splits if_splits)

lemma onMessage_known:
  assumes "map_of (pendingRequests s) i = Some p"
  shows "onMessage (Payload (Some i) (Some c) rbody) s =
     Inr (s\<lparr>pendingRequests := AList.delete i (pendingRequests s),
            effects := effects s @ (if timer p then [ClearTimeout (requestId p)] else []) @
              [if 200 \<le> c \<and> c \<le> 299 then Resolve (requestId p) rbody
               else RejectCall (requestId p) (RemoteRequestFailed (Some c) rbody)]\<rparr>)"
  using assms by (simp add: onMessage_def Let_def)

subsection \<open>\<^verbatim>\<open>sendRequest\<close> and \<^verbatim>\<open>flushQueuedRequests\<close>\<close>

lemma sendRequest_open:
  assumes "socket s = Some w" "readyState w = OPEN"
  shows "sendRequest r s =
     (if stringify_throws (envelopeOf r)
      then s\<lparr>effects := effects s @ [RejectCall (requestId r) FailedToSend]\<rparr>
      else if fst (socket_send w)
      then s\<lparr>socket := Some (snd (socket_send w)),
             effects := effects s @ [Send (envelopeOf r), SetTimeout (requestId r) (timeoutMs r)],
             pendingRequests :=
               AList.update (requestId r) (r\<lparr>timer := True\<rparr>) (pendingRequests s)\<rparr>
      else s\<lparr>socket := Some (snd (socket_send w)),
             effects := effects s @ [RejectCall (requestId r) FailedToSend]\<rparr>)"
  using assms by (simp add: sendRequest_def split: prod.splits bool.splits)

lemma sendRequest_same:
  "queuedRequests (sendRequest r s) = queuedRequests s"
  "connectedState (sendRequest r s) = connectedState s"
  "nextRequestId (sendRequest r s) = nextRequestId s"
  "reconnectAttempt (sendRequest r s) = reconnectAttempt s"
  "reconnectTimer (sendRequest r s) = reconnectTimer s"
  "connectPromise (sendRequest r s) = connectPromise s"
  "disposed (sendRequest r s) = disposed s"
  "pingTimer (sendRequest r s) = pingTimer s"
  "scheduled_delays (effects (sendRequest r s)) = scheduled_delays (effects s)"
  by (simp_all add: sendRequest_def split: option.splits prod.splits bool.splits)

lemma sendRequest_socket:
  "socket s = None \<Longrightarrow> socket (sendRequest r s) = None"
  "socket s \<noteq> None \<Longrightarrow> socket (sendRequest r s) \<noteq> None"
  by (auto simp: sendRequest_def split: option.splits prod.splits bool.splits)

lemma socketOpen_simps:
  "socketOpen (s\<lparr>queuedRequests := q\<rparr>) = socketOpen s"
  "socketOpen (s\<lparr>effects := es\<rparr>) = socketOpen s"
  "socketOpen (s\<lparr>nextRequestId := n\<rparr>) = socketOpen s"
  by (simp_all add: socketOpen_def)

lemma flush_step:
  "queuedRequests s = r # rest \<Longrightarrow>
   flushQueuedRequests s =
     (if \<not> connectedState s \<or> \<not> socketOpen s then s
      else flushQueuedRequests (sendRequest r (s\<lparr>queuedRequests := rest\<rparr>)))"
  by (subst flushQueuedRequests.simps) (simp add: Let_def socketOpen_simps)

lemma flush_empty: "queuedRequests s = [] \<Longrightarrow> flushQueuedRequests s = s"
  by (subst flushQueuedRequests.simps) simp

text \<open>
  What a flush does: it takes the calls of the queue from the front, one after the other;
  \<open>oks\<close> says of each call taken whether \<^verbatim>\<open>send\<close> returned (the frame is written, in that
  order) or not (\<^verbatim>\<open>JSON.stringify\<close> or \<^verbatim>\<open>send\<close> threw: the call is rejected). A call
  whose body has no JSON text is never written. The calls not taken stay in the queue, in
  order, and some stay only if the channel is no longer open.
\<close>

lemma flush_sends_prefix:
  "queuedRequests s = q \<Longrightarrow>
   \<exists>oks. length oks \<le> length q
     \<and> queuedRequests (flushQueuedRequests s) = drop (length oks) q
     \<and> frames (effects (flushQueuedRequests s)) =
         frames (effects s) @ map (envelopeOf \<circ> fst) (filter snd (zip q oks))
     \<and> settlements (effects (flushQueuedRequests s)) =
         settlements (effects s) @
         map (\<lambda>x. (requestId (fst x), Failed FailedToSend)) (filter (\<lambda>x. \<not> snd x) (zip q oks))
     \<and> (length oks < length q \<longrightarrow>
          \<not> (connectedState (flushQueuedRequests s) \<and> socketOpen (flushQueuedRequests s)))
     \<and> list_all (\<lambda>x. stringify_throws (envelopeOf (fst x)) \<longrightarrow> \<not> snd x) (zip q oks)"
proof (induction q arbitrary: s)
  case Nil
  then show ?case by (simp add: flush_empty)
next
  case (Cons r rest)
  show ?case
  proof (cases "\<not> connectedState s \<or> \<not> socketOpen s")
    case True
    then have "flushQueuedRequests s = s" using Cons.prems by (simp add: flush_step)
    then show ?thesis using True Cons.prems
      by (intro exI [of _ "[]"]) auto
  next
    case False
    then obtain w where w: "socket s = Some w" "readyState w = OPEN"
      by (auto simp: socketOpen_def split: option.splits)
    let ?s1 = "sendRequest r (s\<lparr>queuedRequests := rest\<rparr>)"
    have fl: "flushQueuedRequests s = flushQueuedRequests ?s1"
      using False Cons.prems by (simp add: flush_step)
    have q1: "queuedRequests ?s1 = rest" by (simp add: sendRequest_same)
    from Cons.IH [OF q1] obtain oks where oks:
      "length oks \<le> length rest"
      "queuedRequests (flushQueuedRequests ?s1) = drop (length oks) rest"
      "frames (effects (flushQueuedRequests ?s1)) =
         frames (effects ?s1) @ map (envelopeOf \<circ> fst) (filter snd (zip rest oks))"
      "settlements (effects (flushQueuedRequests ?s1)) =
         settlements (effects ?s1) @
         map (\<lambda>x. (requestId (fst x), Failed FailedToSend)) (filter (\<lambda>x. \<not> snd x) (zip rest oks))"
      "length oks < length rest \<longrightarrow>
          \<not> (connectedState (flushQueuedRequests ?s1) \<and> socketOpen (flushQueuedRequests ?s1))"
      "list_all (\<lambda>x. stringify_throws (envelopeOf (fst x)) \<longrightarrow> \<not> snd x) (zip rest oks)"
      by blast
    let ?ok = "\<not> stringify_throws (envelopeOf r) \<and> fst (socket_send w)"
    have s1: "frames (effects ?s1) = frames (effects s) @ (if ?ok then [envelopeOf r] else [])"
      "settlements (effects ?s1) = settlements (effects s) @
          (if ?ok then [] else [(requestId r, Failed FailedToSend)])"
      using w by (simp_all add: sendRequest_open)
    show ?thesis
      using oks s1 fl
      by (intro exI [of _ "?ok # oks"]) auto
  qed
qed


subsection \<open>\<^verbatim>\<open>connect\<close>, \<^verbatim>\<open>request\<close> and \<^verbatim>\<open>onOpen\<close>\<close>

lemma connect_catch_not_disposed:
  "\<not> disposed s \<Longrightarrow>
   connect_catch h s =
     (if connectedState s then s
      else case connectPromise s of
             Some hs \<Rightarrow> s\<lparr>connectPromise := Some (hs @ [h])\<rparr>
           | None \<Rightarrow> s\<lparr>connectPromise := Some [h], effects := effects s @ [NewWebSocket]\<rparr>)"
  by (simp add: connect_catch_def connect_def split: option.splits)

lemma connect_catch_disposed: "disposed s \<Longrightarrow> connect_catch h s = run_catch s h"
  by (simp add: connect_catch_def connect_def)

lemma request_overflow:
  assumes "\<not> (connectedState s \<and> socketOpen s)" "disconnectedBehavior s = Queue"
    "maxQueueSize s \<le> int (length (queuedRequests s))"
  shows "request v u b t s =
     s\<lparr>nextRequestId := nextRequestId s + 1,
       effects := effects s @
         [RejectCall (nextRequestId s) (QueueLimitReached (maxQueueSize s))]\<rparr>"
  using assms by (auto simp: request_def Let_def socketOpen_simps)

lemma request_buffered:
  assumes "\<not> (connectedState s \<and> socketOpen s)" "disconnectedBehavior s = Queue"
    "int (length (queuedRequests s)) < maxQueueSize s" "\<not> disposed s"
  shows "request v u b t s =
     (let s1 = s\<lparr>nextRequestId := nextRequestId s + 1,
                 queuedRequests := queuedRequests s @ [outboundOf v u b t s]\<rparr>
      in if connectedState s then s1
         else case connectPromise s of
                Some hs \<Rightarrow> s1\<lparr>connectPromise := Some (hs @ [RequestCatch])\<rparr>
              | None \<Rightarrow> s1\<lparr>connectPromise := Some [RequestCatch],
                            effects := effects s @ [NewWebSocket]\<rparr>)"
  using assms
  by (auto simp: request_def Let_def socketOpen_simps connect_catch_not_disposed outboundOf_def
      split: option.splits)

lemma request_buffered_fields:
  assumes "\<not> (connectedState s \<and> socketOpen s)" "disconnectedBehavior s = Queue"
    "int (length (queuedRequests s)) < maxQueueSize s" "\<not> disposed s"
  shows "queuedRequests (request v u b t s) = queuedRequests s @ [outboundOf v u b t s]"
    "nextRequestId (request v u b t s) = nextRequestId s + 1"
    "pendingRequests (request v u b t s) = pendingRequests s"
    "frames (effects (request v u b t s)) = frames (effects s)"
    "settlements (effects (request v u b t s)) = settlements (effects s)"
    "connectedState (request v u b t s) = connectedState s"
    "socket (request v u b t s) = socket s"
    "disposed (request v u b t s) = disposed s"
    "disconnectedBehavior (request v u b t s) = disconnectedBehavior s"
    "maxQueueSize (request v u b t s) = maxQueueSize s"
    "\<not> connectedState s \<Longrightarrow> connectPromise (request v u b t s) \<noteq> None"
  by (simp_all add: request_buffered [OF assms] Let_def split: option.splits)

lemma stopPing_same:
  "queuedRequests (stopPing s) = queuedRequests s"
  "connectedState (stopPing s) = connectedState s"
  "socket (stopPing s) = socket s"
  "pendingRequests (stopPing s) = pendingRequests s"
  "frames (effects (stopPing s)) = frames (effects s)"
  "settlements (effects (stopPing s)) = settlements (effects s)"
  "scheduled_delays (effects (stopPing s)) = scheduled_delays (effects s)"
  "cleared_timeouts (effects (stopPing s)) = cleared_timeouts (effects s)"
  "reconnectAttempt (stopPing s) = reconnectAttempt s"
  "reconnectTimer (stopPing s) = reconnectTimer s"
  "nextRequestId (stopPing s) = nextRequestId s"
  "disposed (stopPing s) = disposed s"
  "connectPromise (stopPing s) = connectPromise s"
  "\<not> pingTimer (stopPing s)"
  by (simp_all add: stopPing_def)

lemma startPing_same:
  "queuedRequests (startPing s) = queuedRequests s"
  "connectedState (startPing s) = connectedState s"
  "socket (startPing s) = socket s"
  "pendingRequests (startPing s) = pendingRequests s"
  "frames (effects (startPing s)) = frames (effects s)"
  "settlements (effects (startPing s)) = settlements (effects s)"
  "scheduled_delays (effects (startPing s)) = scheduled_delays (effects s)"
  "reconnectAttempt (startPing s) = reconnectAttempt s"
  "reconnectTimer (startPing s) = reconnectTimer s"
  "nextRequestId (startPing s) = nextRequestId s"
  "disposed (startPing s) = disposed s"
  "connectPromise (startPing s) = connectPromise s"
  by (simp_all add: startPing_def stopPing_def Let_def)

lemma onOpen_in_flight:
  "connectPromise s \<noteq> None \<Longrightarrow>
   onOpen w s = (flushQueuedRequests (opened w s))
     \<lparr>connectPromise := None,
      effects := effects (flushQueuedRequests (opened w s)) @ [ConnectResolved]\<rparr>"
  by (auto simp: onOpen_def opened_def attachSocket_def Let_def)

lemma opened_fields:
  "queuedRequests (opened w s) = queuedRequests s"
  "connectedState (opened w s)"
  "socket (opened w s) = Some w"
  "frames (effects (opened w s)) = frames (effects s)"
  "settlements (effects (opened w s)) = settlements (effects s)"
  "reconnectAttempt (opened w s) = 0"
  by (simp_all add: opened_def startPing_same)

lemma onOpen_flushes:
  assumes "connectPromise s \<noteq> None"
  shows "\<exists>oks. length oks \<le> length (queuedRequests s)
     \<and> queuedRequests (onOpen w s) = drop (length oks) (queuedRequests s)
     \<and> frames (effects (onOpen w s)) =
         frames (effects s) @ map (envelopeOf \<circ> fst) (filter snd (zip (queuedRequests s) oks))
     \<and> settlements (effects (onOpen w s)) =
         settlements (effects s) @
         map (\<lambda>x. (requestId (fst x), Failed FailedToSend))
           (filter (\<lambda>x. \<not> snd x) (zip (queuedRequests s) oks))
     \<and> (length oks < length (queuedRequests s) \<longrightarrow>
          \<not> (connectedState (onOpen w s) \<and> socketOpen (onOpen w s)))
     \<and> list_all (\<lambda>x. stringify_throws (envelopeOf (fst x)) \<longrightarrow> \<not> snd x)
          (zip (queuedRequests s) oks)"
proof -
  from flush_sends_prefix [of "opened w s" "queuedRequests s"]
  obtain oks where oks: "length oks \<le> length (queuedRequests s)"
     "queuedRequests (flushQueuedRequests (opened w s)) = drop (length oks) (queuedRequests s)"
     "frames (effects (flushQueuedRequests (opened w s))) =
         frames (effects s) @ map (envelopeOf \<circ> fst) (filter snd (zip (queuedRequests s) oks))"
     "settlements (effects (flushQueuedRequests (opened w s))) =
         settlements (effects s) @
         map (\<lambda>x. (requestId (fst x), Failed FailedToSend))
           (filter (\<lambda>x. \<not> snd x) (zip (queuedRequests s) oks))"
     "length oks < length (queuedRequests s) \<longrightarrow>
          \<not> (connectedState (flushQueuedRequests (opened w s))
             \<and> socketOpen (flushQueuedRequests (opened w s)))"
     "list_all (\<lambda>x. stringify_throws (envelopeOf (fst x)) \<longrightarrow> \<not> snd x)
          (zip (queuedRequests s) oks)"
    by (auto simp: opened_fields)
  show ?thesis
    using oks by (intro exI [of _ oks]) (simp add: onOpen_in_flight [OF assms] socketOpen_def)
qed


lemma frame_of_envelope [simp]:
  "frame_call (envelopeOf r) = call_of r" "frame_id (envelopeOf r) = requestId r"
  by (simp_all add: envelopeOf_def call_of_def)

lemma outboundOf_simps [simp]:
  "requestId (outboundOf v u b t s) = nextRequestId s"
  "call_of (outboundOf v u b t s) = (v, u, b)"
  "timer (outboundOf v u b t s) = False"
  by (simp_all add: outboundOf_def call_of_def)

lemma submit_all_buffers:
  assumes "\<not> connectedState s" "\<not> disposed s" "disconnectedBehavior s = Queue"
    "int (length (queuedRequests s)) + int (length calls) \<le> maxQueueSize s"
  shows "map call_of (queuedRequests (submit_all calls s)) =
           map call_of (queuedRequests s) @ map (\<lambda>(v, u, b, t). (v, u, b)) calls
       \<and> map requestId (queuedRequests (submit_all calls s)) =
           map requestId (queuedRequests s) @ map (\<lambda>i. nextRequestId s + int i) [0..<length calls]
       \<and> nextRequestId (submit_all calls s) = nextRequestId s + int (length calls)
       \<and> frames (effects (submit_all calls s)) = frames (effects s)
       \<and> settlements (effects (submit_all calls s)) = settlements (effects s)
       \<and> pendingRequests (submit_all calls s) = pendingRequests s
       \<and> \<not> connectedState (submit_all calls s) \<and> \<not> disposed (submit_all calls s)
       \<and> disconnectedBehavior (submit_all calls s) = Queue
       \<and> maxQueueSize (submit_all calls s) = maxQueueSize s
       \<and> (calls \<noteq> [] \<longrightarrow> connectPromise (submit_all calls s) \<noteq> None)"
  using assms
proof (induction calls arbitrary: s)
  case Nil
  then show ?case by simp
next
  case (Cons c calls)
  obtain v u b t where c: "c = (v, u, b, t)" by (cases c) auto
  let ?s1 = "request v u b t s"
  have pre: "\<not> (connectedState s \<and> socketOpen s)" "disconnectedBehavior s = Queue"
    "int (length (queuedRequests s)) < maxQueueSize s" "\<not> disposed s"
    using Cons.prems by auto
  note f = request_buffered_fields [OF pre, of v u b t]
  have p1: "\<not> connectedState ?s1" "\<not> disposed ?s1" "disconnectedBehavior ?s1 = Queue"
    "int (length (queuedRequests ?s1)) + int (length calls) \<le> maxQueueSize ?s1"
    using Cons.prems f by auto
  have cp: "connectPromise ?s1 \<noteq> None" using f(11) Cons.prems(1) by simp
  have ih: "map call_of (queuedRequests (submit_all calls ?s1)) =
           map call_of (queuedRequests ?s1) @ map (\<lambda>(v, u, b, t). (v, u, b)) calls
       \<and> map requestId (queuedRequests (submit_all calls ?s1)) =
           map requestId (queuedRequests ?s1) @ map (\<lambda>i. nextRequestId ?s1 + int i) [0..<length calls]
       \<and> nextRequestId (submit_all calls ?s1) = nextRequestId ?s1 + int (length calls)
       \<and> frames (effects (submit_all calls ?s1)) = frames (effects ?s1)
       \<and> settlements (effects (submit_all calls ?s1)) = settlements (effects ?s1)
       \<and> pendingRequests (submit_all calls ?s1) = pendingRequests ?s1
       \<and> \<not> connectedState (submit_all calls ?s1) \<and> \<not> disposed (submit_all calls ?s1)
       \<and> disconnectedBehavior (submit_all calls ?s1) = Queue
       \<and> maxQueueSize (submit_all calls ?s1) = maxQueueSize ?s1
       \<and> (calls \<noteq> [] \<longrightarrow> connectPromise (submit_all calls ?s1) \<noteq> None)"
    by (rule Cons.IH [OF p1])
  have ids: "map (\<lambda>i. nextRequestId s + int i) [0..<length (c # calls)] =
      nextRequestId s # map (\<lambda>i. nextRequestId s + 1 + int i) [0..<length calls]"
    by (simp add: map_upt_Suc add.assoc del: upt_Suc)
  have cp': "connectPromise (submit_all calls ?s1) \<noteq> None"
    using ih cp by (cases calls) auto
  show ?case
    unfolding ids using ih cp' by (simp add: c f)
qed







subsection \<open>The example states\<close>

lemma example_new_is_new: "new_WebSocketTransport no_options = example_new"
  by (simp add: new_WebSocketTransport_def no_options_def example_new_def
      DEFAULT_REQUEST_TIMEOUT_MS_def DEFAULT_PING_INTERVAL_MS_def
      DEFAULT_RECONNECT_INITIAL_DELAY_MS_def DEFAULT_RECONNECT_MAX_DELAY_MS_def
      DEFAULT_RECONNECT_BACKOFF_FACTOR_def DEFAULT_MAX_QUEUE_SIZE_def)

lemma example_queue_full_is_reached:
  "submit_all example_calls example_capacity_two = example_queue_full"
  by (simp add: example_calls_def example_capacity_two_def example_new_def
      example_queue_full_def request_def Let_def socketOpen_def connect_catch_def connect_def)

lemma request_nextRequestId: "nextRequestId (request v u b t s) = nextRequestId s + 1"
  by (auto simp: request_def Let_def connect_catch_def connect_def run_catch_def
      rejectQueuedRequests_def sendRequest_same split: option.splits)

subsection \<open>\<^verbatim>\<open>scheduleReconnect\<close> and \<^verbatim>\<open>onClose\<close>\<close>

lemma reconnectDelay_cong:
  "reconnectInitialDelayMs s' = reconnectInitialDelayMs s \<Longrightarrow>
   reconnectBackoffFactor s' = reconnectBackoffFactor s \<Longrightarrow>
   reconnectMaxDelayMs s' = reconnectMaxDelayMs s \<Longrightarrow>
   reconnectAttempt s' = reconnectAttempt s \<Longrightarrow> reconnectDelay s' = reconnectDelay s"
  by (simp add: reconnectDelay_def)

lemma scheduleReconnect_same:
  "queuedRequests (scheduleReconnect s) = queuedRequests s"
  "pendingRequests (scheduleReconnect s) = pendingRequests s"
  "connectedState (scheduleReconnect s) = connectedState s"
  "socket (scheduleReconnect s) = socket s"
  "disposed (scheduleReconnect s) = disposed s"
  "autoReconnect (scheduleReconnect s) = autoReconnect s"
  "pingTimer (scheduleReconnect s) = pingTimer s"
  "connectPromise (scheduleReconnect s) = connectPromise s"
  "nextRequestId (scheduleReconnect s) = nextRequestId s"
  "settlements (effects (scheduleReconnect s)) = settlements (effects s)"
  "frames (effects (scheduleReconnect s)) = frames (effects s)"
  "cleared_timeouts (effects (scheduleReconnect s)) = cleared_timeouts (effects s)"
  "reconnectInitialDelayMs (scheduleReconnect s) = reconnectInitialDelayMs s"
  "reconnectBackoffFactor (scheduleReconnect s) = reconnectBackoffFactor s"
  "reconnectMaxDelayMs (scheduleReconnect s) = reconnectMaxDelayMs s"
  by (simp_all add: scheduleReconnect_def Let_def)

lemma scheduleReconnect_armed:
  assumes "autoReconnect s" "\<not> disposed s" "reconnectTimer s = None"
  shows "reconnectTimer (scheduleReconnect s) = Some (reconnectDelay s)"
    "reconnectAttempt (scheduleReconnect s) = reconnectAttempt s + 1"
    "scheduled_delays (effects (scheduleReconnect s)) =
       scheduled_delays (effects s) @ [reconnectDelay s]"
  using assms by (simp_all add: scheduleReconnect_def Let_def)

lemma scheduleReconnect_noop:
  "\<not> autoReconnect s \<or> disposed s \<or> reconnectTimer s \<noteq> None \<Longrightarrow> scheduleReconnect s = s"
  by (auto simp: scheduleReconnect_def)

lemma socket_None_update: "socket s = None \<Longrightarrow> s\<lparr>socket := None\<rparr> = s"
  by (cases s) simp

lemma onClose_closed:
  "onClose s = (if \<not> disposed s then scheduleReconnect (closed s) else closed s)"
proof (cases "socket s")
  case None
  then have e: "(stopPing (s\<lparr>connectedState := False\<rparr>))\<lparr>socket := None\<rparr> =
      stopPing (s\<lparr>connectedState := False\<rparr>)"
    by (intro socket_None_update) (simp add: stopPing_same)
  have "closed s =
      rejectPendingRequests DisconnectedBeforeResponse (stopPing (s\<lparr>connectedState := False\<rparr>))"
    unfolding closed_def e ..
  then show ?thesis using None
    by (simp add: onClose_def Let_def stopPing_same rejectPendingRequests_def)
next
  case (Some w)
  then show ?thesis
    by (simp add: onClose_def closed_def Let_def stopPing_same rejectPendingRequests_def)
qed

lemma closed_fields:
  "\<not> connectedState (closed s)" "\<not> pingTimer (closed s)" "socket (closed s) = None"
  "pendingRequests (closed s) = []" "queuedRequests (closed s) = queuedRequests s"
  "disposed (closed s) = disposed s" "autoReconnect (closed s) = autoReconnect s"
  "reconnectTimer (closed s) = reconnectTimer s" "reconnectAttempt (closed s) = reconnectAttempt s"
  "connectPromise (closed s) = connectPromise s" "nextRequestId (closed s) = nextRequestId s"
  "reconnectDelay (closed s) = reconnectDelay s"
  "reconnectInitialDelayMs (closed s) = reconnectInitialDelayMs s"
  "reconnectBackoffFactor (closed s) = reconnectBackoffFactor s"
  "reconnectMaxDelayMs (closed s) = reconnectMaxDelayMs s"
  by (simp_all add: closed_def rejectPendingRequests_def stopPing_def reconnectDelay_def)

lemma closed_effects:
  "effects (closed s) = effects s @ (if pingTimer s then [ClearPingInterval] else []) @
     concat (map (\<lambda>r. (if timer r then [ClearTimeout (requestId r)] else []) @
                        [RejectCall (requestId r) DisconnectedBeforeResponse])
              (map snd (pendingRequests s)))"
  by (simp add: closed_def rejectPendingRequests_def stopPing_def foldl_rejectPending_step)

lemma closed_observed:
  "settlements (effects (closed s)) = settlements (effects s) @
     map (\<lambda>r. (requestId r, Failed DisconnectedBeforeResponse)) (map snd (pendingRequests s))"
  "cleared_timeouts (effects (closed s)) = cleared_timeouts (effects s) @
     map requestId (filter timer (map snd (pendingRequests s)))"
  "scheduled_delays (effects (closed s)) = scheduled_delays (effects s)"
  "frames (effects (closed s)) = frames (effects s)"
  by (simp_all add: closed_effects
      settlements_reject_pending [of _ "map snd (pendingRequests s)"]
      cleared_reject_pending [of _ "map snd (pendingRequests s)"]
      delays_reject_pending [of _ "map snd (pendingRequests s)"]
      frames_reject_pending [of _ "map snd (pendingRequests s)"] del: map_map)





subsection \<open>Every reachable state keeps its pending entries in order\<close>


















subsection \<open>The backoff\<close>

lemma run_catch_noop:
  "autoReconnect s \<Longrightarrow> reconnectTimer s \<noteq> None \<Longrightarrow> run_catch s h = s"
  by (cases h) (simp_all add: run_catch_def scheduleReconnect_noop)

lemma foldl_run_catch_noop:
  "autoReconnect s \<Longrightarrow> reconnectTimer s \<noteq> None \<Longrightarrow> foldl run_catch s hs = s"
  by (induction hs) (simp_all add: run_catch_noop)

lemma onConnectFailure_in_flight:
  assumes "autoReconnect s" "\<not> disposed s" "reconnectTimer s = None" "connectPromise s \<noteq> None"
  shows "onConnectFailure f s =
     s\<lparr>reconnectAttempt := reconnectAttempt s + 1,
       reconnectTimer := Some (reconnectDelay s),
       connectPromise := None,
       effects := effects s @ (if f = CloseBeforeOpen then [] else [CloseSocket]) @
         [SetReconnectTimer (reconnectDelay s), ConnectRejected (connect_error f)]\<rparr>"
proof -
  obtain hs where hs: "connectPromise s = Some hs" using assms(4) by auto
  let ?s3 = "s\<lparr>reconnectAttempt := reconnectAttempt s + 1,
       reconnectTimer := Some (reconnectDelay s),
       connectPromise := None,
       effects := effects s @ (if f = CloseBeforeOpen then [] else [CloseSocket]) @
         [SetReconnectTimer (reconnectDelay s), ConnectRejected (connect_error f)]\<rparr>"
  have "onConnectFailure f s = foldl run_catch ?s3 hs"
    using assms hs
    by (simp add: onConnectFailure_def Let_def scheduleReconnect_def reconnectDelay_def)
  moreover have "foldl run_catch ?s3 hs = ?s3"
    using assms by (intro foldl_run_catch_noop) simp_all
  ultimately show ?thesis by simp
qed

text \<open>
  A failure of the attempt in flight while a reconnect timer is armed: nothing is scheduled
  and the attempt count stays.
\<close>

lemma onConnectFailure_armed:
  assumes "autoReconnect s" "reconnectTimer s \<noteq> None" "connectPromise s \<noteq> None"
  shows "onConnectFailure f s =
     s\<lparr>connectPromise := None,
       effects := effects s @ (if f = CloseBeforeOpen then [] else [CloseSocket]) @
         [ConnectRejected (connect_error f)]\<rparr>"
proof -
  obtain hs where hs: "connectPromise s = Some hs" using assms(3) by auto
  obtain d where d: "reconnectTimer s = Some d" using assms(2) by auto
  let ?s3 = "s\<lparr>connectPromise := None,
       effects := effects s @ (if f = CloseBeforeOpen then [] else [CloseSocket]) @
         [ConnectRejected (connect_error f)]\<rparr>"
  have "onConnectFailure f s = foldl run_catch ?s3 hs"
    using hs d
    by (simp add: onConnectFailure_def Let_def scheduleReconnect_def)
  moreover have "foldl run_catch ?s3 hs = ?s3"
    using assms by (intro foldl_run_catch_noop) simp_all
  ultimately show ?thesis by simp
qed

lemma onReconnectTimer_armed:
  assumes "reconnectTimer s \<noteq> None" "\<not> disposed s" "\<not> connectedState s" "connectPromise s = None"
  shows "onReconnectTimer s =
     s\<lparr>reconnectTimer := None, connectPromise := Some [ReconnectCatch],
       effects := effects s @ [NewWebSocket]\<rparr>"
  using assms by (auto simp: onReconnectTimer_def connect_catch_not_disposed)

lemma failed_round:
  assumes "autoReconnect s" "\<not> disposed s" "\<not> connectedState s" "reconnectTimer s = None"
    "connectPromise s \<noteq> None"
  shows "onReconnectTimer (onConnectFailure f s) =
     s\<lparr>reconnectAttempt := reconnectAttempt s + 1,
       reconnectTimer := None,
       connectPromise := Some [ReconnectCatch],
       effects := effects s @ (if f = CloseBeforeOpen then [] else [CloseSocket]) @
         [SetReconnectTimer (reconnectDelay s), ConnectRejected (connect_error f), NewWebSocket]\<rparr>"
  using assms
  by (simp add: onConnectFailure_in_flight onReconnectTimer_armed)

lemma failed_attempts_delays:
  assumes "autoReconnect s" "\<not> disposed s" "\<not> connectedState s" "reconnectTimer s = None"
    "connectPromise s \<noteq> None"
  shows "scheduled_delays (effects (failed_attempts fs s)) =
       scheduled_delays (effects s) @
       map (\<lambda>k. js_min (js_mul (reconnectInitialDelayMs s)
                    (js_pow (reconnectBackoffFactor s) (reconnectAttempt s + k)))
             (reconnectMaxDelayMs s)) [0..<length fs]
     \<and> reconnectAttempt (failed_attempts fs s) = reconnectAttempt s + length fs
     \<and> connectPromise (failed_attempts fs s) \<noteq> None
     \<and> reconnectTimer (failed_attempts fs s) = None"
  using assms
proof (induction fs arbitrary: s)
  case Nil
  then show ?case by simp
next
  case (Cons f fs)
  let ?s1 = "onReconnectTimer (onConnectFailure f s)"
  note r = failed_round [OF Cons.prems, of f]
  have p: "autoReconnect ?s1" "\<not> disposed ?s1" "\<not> connectedState ?s1" "reconnectTimer ?s1 = None"
    "connectPromise ?s1 \<noteq> None"
    using Cons.prems by (simp_all add: r)
  have f1: "reconnectAttempt ?s1 = reconnectAttempt s + 1"
    "reconnectInitialDelayMs ?s1 = reconnectInitialDelayMs s"
    "reconnectBackoffFactor ?s1 = reconnectBackoffFactor s"
    "reconnectMaxDelayMs ?s1 = reconnectMaxDelayMs s"
    "scheduled_delays (effects ?s1) = scheduled_delays (effects s) @ [reconnectDelay s]"
    by (simp_all add: r)
  have ks: "map (\<lambda>k. js_min (js_mul (reconnectInitialDelayMs s)
                    (js_pow (reconnectBackoffFactor s) (reconnectAttempt s + k)))
             (reconnectMaxDelayMs s)) [0..<length (f # fs)] =
      reconnectDelay s #
      map (\<lambda>k. js_min (js_mul (reconnectInitialDelayMs s)
                    (js_pow (reconnectBackoffFactor s) (reconnectAttempt s + 1 + k)))
             (reconnectMaxDelayMs s)) [0..<length fs]"
    by (simp add: map_upt_Suc reconnectDelay_def del: upt_Suc)
  show ?case
    unfolding ks using Cons.IH [OF p] by (simp add: f1)
qed

text \<open>
  Where the model is sure of the result: an integer below \<open>2 ^ 53\<close> is a double, and an
  integer from \<open>2 ^ 53\<close> on is rounded to something huge.
\<close>

lemma representable_of_int: "representable (of_int n) = (\<bar>n\<bar> < 2 ^ 53)"
  by (simp add: representable_def quotient_of_int)

lemma js_round_of_int:
  "js_round (of_int n) =
     (if \<bar>n\<bar> < 2 ^ 53 then Num (of_int n) else if 2 ^ 53 \<le> n then Huge else Other)"
proof -
  have "((2 :: rat) ^ 53 \<le> of_int n) = ((2 :: int) ^ 53 \<le> n)"
    using of_int_le_iff [of "2 ^ 53" n, where ?'a = rat] by simp
  then show ?thesis by (simp add: js_round_def representable_of_int)
qed

text \<open>
  The delay when the three numbers are such that the power and the product are computed
  exactly, a fractional factor included.
\<close>

lemma exact_delay:
  assumes "representable (f ^ k)" "representable (i * f ^ k)"
  shows "js_min (js_mul (Num i) (js_pow (Num f) k)) (Num m) = Num (min (i * f ^ k) m)"
  using assms by (simp add: js_round_def)

text \<open>
  With an integer initial delay of at least 1, a non-negative integer factor and a maximum
  of at most \<open>2 ^ 52\<close>, the delay is that of the formula for every count: where the power
  or the product is too large to be exact, it is far above the maximum.
\<close>

lemma integer_delay:
  assumes "1 \<le> i" "0 \<le> f" "m \<le> 2 ^ 52"
  shows "js_min (js_mul (Num (of_int i)) (js_pow (Num (of_int f)) k)) (Num m) =
         Num (min (of_int (i * f ^ k)) m)"
proof -
  have fk: "0 \<le> f ^ k" using assms(2) by simp
  have pw: "js_pow (Num (of_int f)) k = js_round (of_int (f ^ k))" by simp
  have big: "Num m = Num (min (of_int n) m)" if "2 ^ 53 \<le> n" for n :: int
  proof -
    have "(2 :: rat) ^ 53 \<le> of_int n"
      using of_int_le_iff [of "2 ^ 53" n, where ?'a = rat] that by simp
    then have "m \<le> of_int n" using assms(3) by simp
    then show ?thesis by (simp add: min_def)
  qed
  show ?thesis
  proof (cases "f ^ k < 2 ^ 53")
    case small: True
    then have p: "js_pow (Num (of_int f)) k = Num (of_int (f ^ k))"
      using fk unfolding pw by (simp add: js_round_of_int del: of_int_power of_int_mult)
    have m: "js_mul (Num (of_int i)) (Num (of_int (f ^ k))) = js_round (of_int (i * f ^ k))"
      by simp
    show ?thesis
    proof (cases "i * f ^ k < 2 ^ 53")
      case True
      moreover have "0 \<le> i * f ^ k" using assms(1) fk by simp
      ultimately have "js_round (of_int (i * f ^ k)) = Num (of_int (i * f ^ k))"
        by (simp add: js_round_of_int del: of_int_power of_int_mult)
      then show ?thesis unfolding p m by simp
    next
      case False
      then have "js_round (of_int (i * f ^ k)) = Huge" by (simp add: js_round_of_int del: of_int_power of_int_mult)
      then show ?thesis unfolding p m using big [of "i * f ^ k"] False assms(3) by simp
    qed
  next
    case False
    then have p: "js_pow (Num (of_int f)) k = Huge"
      unfolding pw by (simp add: js_round_of_int del: of_int_power of_int_mult)
    have "1 * f ^ k \<le> i * f ^ k" using assms(1) fk by (intro mult_right_mono) simp_all
    then have "2 ^ 53 \<le> i * f ^ k" using False by linarith
    then show ?thesis unfolding p using big [of "i * f ^ k"] assms by simp
  qed
qed

lemma default_delay:
  "js_min (js_mul (Num 250) (js_pow (Num 2) k)) (Num 5000) =
   Num (if k < 5 then 250 * 2 ^ k else 5000)"
proof -
  have "js_min (js_mul (Num (of_int 250)) (js_pow (Num (of_int 2)) k)) (Num 5000) =
      Num (min (of_int (250 * 2 ^ k)) 5000)"
    by (rule integer_delay) simp_all
  then have d: "js_min (js_mul (Num 250) (js_pow (Num 2) k)) (Num 5000) =
      Num (min (250 * 2 ^ k) 5000)"
    by simp
  show ?thesis
  proof (cases "k < 5")
    case True
    then have "k = 0 \<or> k = 1 \<or> k = 2 \<or> k = 3 \<or> k = 4" by arith
    then show ?thesis unfolding d by auto
  next
    case False
    then have "(2 :: rat) ^ 5 \<le> 2 ^ k" by (intro power_increasing) simp_all
    then show ?thesis unfolding d using False by simp
  qed
qed

lemma upt_7: "[0..<7] = [0, 1, 2, 3, 4, 5, 6]"
  by (simp add: upt_rec)

lemma sendRequest_backoff: "backoff_state (sendRequest r s) = backoff_state s"
  by (simp add: backoff_state_def sendRequest_def split: option.splits prod.splits bool.splits)

lemma flush_backoff:
  "queuedRequests s = q \<Longrightarrow> backoff_state (flushQueuedRequests s) = backoff_state s"
proof (induction q arbitrary: s)
  case Nil
  then show ?case by (simp add: flush_empty)
next
  case (Cons r rest)
  show ?case
  proof (cases "\<not> connectedState s \<or> \<not> socketOpen s")
    case True
    then show ?thesis using Cons.prems by (simp add: flush_step)
  next
    case False
    let ?s1 = "sendRequest r (s\<lparr>queuedRequests := rest\<rparr>)"
    have "queuedRequests ?s1 = rest" by (simp add: sendRequest_same)
    then have "backoff_state (flushQueuedRequests ?s1) = backoff_state ?s1" by (rule Cons.IH)
    also have "\<dots> = backoff_state (s\<lparr>queuedRequests := rest\<rparr>)" by (rule sendRequest_backoff)
    also have "\<dots> = backoff_state s" by (simp add: backoff_state_def)
    finally show ?thesis using False Cons.prems by (simp add: flush_step)
  qed
qed

lemma onOpen_backoff:
  assumes "connectPromise s \<noteq> None"
  shows "backoff_state (onOpen w s) =
     (autoReconnect s, disposed s, reconnectTimer s, 0,
      reconnectInitialDelayMs s, reconnectBackoffFactor s, reconnectMaxDelayMs s,
      scheduled_delays (effects s))"
proof -
  have "backoff_state (onOpen w s) = backoff_state (flushQueuedRequests (opened w s))"
    by (simp add: onOpen_in_flight [OF assms] backoff_state_def)
  also have "\<dots> = backoff_state (opened w s)" by (rule flush_backoff [OF refl])
  also have "\<dots> = (autoReconnect s, disposed s, reconnectTimer s, 0,
      reconnectInitialDelayMs s, reconnectBackoffFactor s, reconnectMaxDelayMs s,
      scheduled_delays (effects s))"
    by (simp add: backoff_state_def opened_def startPing_def stopPing_def Let_def)
  finally show ?thesis .
qed

lemma onClose_after_onOpen:
  assumes "connectPromise s \<noteq> None" "autoReconnect s" "\<not> disposed s" "reconnectTimer s = None"
  shows "scheduled_delays (effects (onClose (onOpen w s))) =
     scheduled_delays (effects s) @
       [js_min (js_mul (reconnectInitialDelayMs s) (Num 1)) (reconnectMaxDelayMs s)]"
proof -
  let ?o = "onOpen w s"
  have b: "autoReconnect ?o" "\<not> disposed ?o" "reconnectTimer ?o = None" "reconnectAttempt ?o = 0"
    "reconnectInitialDelayMs ?o = reconnectInitialDelayMs s"
    "reconnectBackoffFactor ?o = reconnectBackoffFactor s"
    "reconnectMaxDelayMs ?o = reconnectMaxDelayMs s"
    "scheduled_delays (effects ?o) = scheduled_delays (effects s)"
    using onOpen_backoff [OF assms(1), of w] assms by (simp_all add: backoff_state_def)
  have c: "autoReconnect (closed ?o)" "\<not> disposed (closed ?o)" "reconnectTimer (closed ?o) = None"
    using b by (simp_all add: closed_fields)
  have "scheduled_delays (effects (onClose ?o)) =
      scheduled_delays (effects (closed ?o)) @ [reconnectDelay (closed ?o)]"
    using b by (simp add: onClose_closed scheduleReconnect_armed [OF c])
  moreover have "reconnectDelay (closed ?o) = reconnectDelay ?o" by (rule closed_fields)
  moreover have "reconnectDelay ?o =
      js_min (js_mul (reconnectInitialDelayMs s) (Num 1)) (reconnectMaxDelayMs s)"
    using b by (cases "reconnectBackoffFactor s") (simp_all add: reconnectDelay_def js_round_def representable_def)
  ultimately show ?thesis
    using b by (simp add: closed_observed)
qed

lemma onClose_after_onOpen_armed:
  assumes "connectPromise s \<noteq> None" "reconnectTimer s = Some d"
  shows "scheduled_delays (effects (onClose (onOpen w s))) = scheduled_delays (effects s)"
    "reconnectTimer (onClose (onOpen w s)) = Some d"
    "reconnectAttempt (onClose (onOpen w s)) = 0"
proof -
  let ?o = "onOpen w s"
  have b: "reconnectTimer ?o = Some d" "reconnectAttempt ?o = 0"
    "scheduled_delays (effects ?o) = scheduled_delays (effects s)"
    using onOpen_backoff [OF assms(1), of w] assms by (simp_all add: backoff_state_def)
  have "scheduleReconnect (closed ?o) = closed ?o"
    using b by (intro scheduleReconnect_noop) (simp add: closed_fields)
  then have c: "onClose ?o = closed ?o" by (simp add: onClose_closed)
  show "scheduled_delays (effects (onClose ?o)) = scheduled_delays (effects s)"
    "reconnectTimer (onClose ?o) = Some d" "reconnectAttempt (onClose ?o) = 0"
    unfolding c using b by (simp_all add: closed_fields closed_observed)
qed

subsection \<open>Batches\<close>

lemma add_result:
  "add v u b requests =
     (if u \<noteq> [] then Inr (int (length requests),
          requests @ [\<lparr>RequestId = int (length requests), URL = u, Verb = v, Body = b\<rparr>])
      else Inl ZodError)"
  by (cases u) (simp_all add: add_def BatchRequestItemSchema_parse_def Let_def)

lemma add_all_ids:
  "map RequestId requests = map int [0..<length requests] \<Longrightarrow>
   add_all calls requests = (ids, requests') \<Longrightarrow>
   map RequestId requests' = map int [0..<length requests']
   \<and> map RequestId requests' = map RequestId requests @ ids
   \<and> take (length requests) requests' = requests
   \<and> map (\<lambda>item. (Verb item, URL item, Body item)) (drop (length requests) requests') =
       filter (\<lambda>(v, u, b). u \<noteq> []) calls"
proof (induction calls arbitrary: requests ids)
  case Nil
  then show ?case by simp
next
  case (Cons c calls)
  obtain v u b where c: "c = (v, u, b)" by (cases c) auto
  show ?case
  proof (cases "u = []")
    case True
    then have aa: "add_all calls requests = (ids, requests')"
      using Cons.prems(2) by (simp add: c add_result)
    have fl: "filter (\<lambda>(v, u, b). u \<noteq> []) (c # calls) =
        filter (\<lambda>(v, u, b). u \<noteq> []) calls"
      using True by (simp add: c)
    show ?thesis unfolding fl by (rule Cons.IH [OF Cons.prems(1) aa])
  next
    case False
    let ?r1 = "requests @ [\<lparr>RequestId = int (length requests), URL = u, Verb = v, Body = b\<rparr>]"
    obtain ids1 where ids1: "add_all calls ?r1 = (ids1, requests')"
      "ids = int (length requests) # ids1"
      using Cons.prems(2) False by (auto simp: c add_result split: prod.splits)
    have inv: "map RequestId ?r1 = map int [0..<length ?r1]"
      using Cons.prems(1) by simp
    from Cons.IH [OF inv ids1(1)]
    have ih: "map RequestId requests' = map int [0..<length requests']"
      "map RequestId requests' = map RequestId ?r1 @ ids1"
      "take (length ?r1) requests' = ?r1"
      "map (\<lambda>item. (Verb item, URL item, Body item)) (drop (length ?r1) requests') =
         filter (\<lambda>(v, u, b). u \<noteq> []) calls"
      by blast+
    have tk: "take (length requests) requests' = requests"
      using arg_cong [OF ih(3), of "take (length requests)"] by (simp add: take_take min_def)
    have len: "length requests < length requests'"
      using arg_cong [OF ih(3), of length] by simp
    have nth: "requests' ! length requests =
        \<lparr>RequestId = int (length requests), URL = u, Verb = v, Body = b\<rparr>"
      using arg_cong [OF ih(3), of "\<lambda>xs. xs ! length requests"] by simp
    have dr: "drop (length requests) requests' =
        \<lparr>RequestId = int (length requests), URL = u, Verb = v, Body = b\<rparr> #
        drop (length ?r1) requests'"
      using len nth by (simp add: Cons_nth_drop_Suc [symmetric])
    show ?thesis
    proof (intro conjI)
      show "map RequestId requests' = map int [0..<length requests']" by (rule ih(1))
      show "map RequestId requests' = map RequestId requests @ ids"
        using ih(2) by (simp add: ids1(2))
      show "take (length requests) requests' = requests" by (rule tk)
      show "map (\<lambda>item. (Verb item, URL item, Body item)) (drop (length requests) requests') =
          filter (\<lambda>(v, u, b). u \<noteq> []) (c # calls)"
        using ih(4) False by (simp add: c dr)
    qed
  qed
qed

lemma parse_items_ok:
  "\<forall>item \<in> set items. RequestId item \<ge> 0 \<and> URL item \<noteq> [] \<Longrightarrow> parse_items items = Inr items"
  by (induction items) (auto simp: BatchRequestItemSchema_parse_def Suc_le_eq)

lemma byRequestId_foldl:
  "foldl (\<lambda>m item. m(response_RequestId item \<mapsto> item)) m items k =
     (case find (\<lambda>item. response_RequestId item = k) (rev items) of
        None \<Rightarrow> m k | Some item \<Rightarrow> Some item)"
  by (induction items rule: rev_induct) (auto split: option.splits)

lemma byRequestId_find:
  "byRequestId items k = find (\<lambda>item. response_RequestId item = k) (rev items)"
  by (simp add: byRequestId_def byRequestId_foldl split: option.splits)

lemma byRequestId_None:
  "k \<notin> response_RequestId ` set items \<Longrightarrow> byRequestId items k = None"
  by (auto simp: byRequestId_find find_None_iff)

lemma find_Some_set: "find P xs = Some x \<Longrightarrow> x \<in> set xs \<and> P x"
  by (induction xs) (auto split: if_splits)

lemma byRequestId_distinct:
  "distinct (map response_RequestId items) \<Longrightarrow> item \<in> set items \<Longrightarrow>
   byRequestId items (response_RequestId item) = Some item"
proof -
  assume d: "distinct (map response_RequestId items)" and i: "item \<in> set items"
  then obtain x where x: "find (\<lambda>it. response_RequestId it = response_RequestId item) (rev items) = Some x"
    by (cases "find (\<lambda>it. response_RequestId it = response_RequestId item) (rev items)")
       (auto simp: find_None_iff)
  then have "x \<in> set items" "response_RequestId x = response_RequestId item"
    using find_Some_set [OF x] by simp_all
  then have "x = item" using d i by (meson distinct_map inj_onD)
  then show ?thesis using x by (simp add: byRequestId_find)
qed

lemma byRequestId_perm:
  assumes "distinct (map response_RequestId items)" "mset items' = mset items"
  shows "byRequestId items' = byRequestId items"
proof
  fix k
  have "mset (map response_RequestId items') = mset (map response_RequestId items)"
    using assms(2) by simp
  then have d': "distinct (map response_RequestId items')"
    using assms(1) mset_eq_imp_distinct_iff by blast
  have s: "set items' = set items" using assms(2) by (rule mset_eq_setD)
  show "byRequestId items' k = byRequestId items k"
  proof (cases "k \<in> response_RequestId ` set items")
    case False
    then show ?thesis using s by (simp add: byRequestId_None)
  next
    case True
    then obtain item where "item \<in> set items" "k = response_RequestId item" by auto
    then show ?thesis
      using byRequestId_distinct [OF assms(1), of item] byRequestId_distinct [OF d', of item] s
      by simp
  qed
qed

lemma correlate_nth:
  "n < length requests \<Longrightarrow>
   correlateBatchResponses requests (Some items) ! n =
     (case byRequestId items (RequestId (requests ! n)) of
        None \<Rightarrow> \<lparr>result_requestId = RequestId (requests ! n), statusCode = 0,
                  result_body = None, result_request = requests ! n\<rparr>
      | Some item \<Rightarrow>
          \<lparr>result_requestId = RequestId (requests ! n),
           statusCode = (case ResponseCode item of None \<Rightarrow> 0 | Some c \<Rightarrow> c),
           result_body = ResponseBody item, result_request = requests ! n\<rparr>)"
  by (simp add: correlateBatchResponses_def Let_def split: option.splits)

lemma correlate_shape:
  "length (correlateBatchResponses requests responses) = length requests"
  "map result_request (correlateBatchResponses requests responses) = requests"
  "map result_requestId (correlateBatchResponses requests responses) = map RequestId requests"
  by (simp_all add: correlateBatchResponses_def Let_def comp_def)

lemma correlate_no_responses:
  "correlateBatchResponses requests None =
     map (\<lambda>r. \<lparr>result_requestId = RequestId r, statusCode = 0, result_body = None,
               result_request = r\<rparr>) requests"
  by (simp add: correlateBatchResponses_def byRequestId_def)

lemma sorted_ids: "sorted_wrt (<) (map int [0..<n])"
  by (simp add: sorted_wrt_map)

lemma example_batch_built:
  "add_all example_batch_calls [] = ([0, 1], example_batch_requests)"
  by (simp add: example_batch_calls_def example_batch_requests_def add_result)

subsection \<open>Every reachable state has scheduled its delays by the backoff formula\<close>

lemma backoff_inv_cong:
  "backoff_state s' = backoff_state s \<Longrightarrow> backoff_inv s' = backoff_inv s"
  by (simp add: backoff_inv_def backoff_state_def)

lemma backoff_inv_fields:
  "reconnectInitialDelayMs s' = reconnectInitialDelayMs s \<Longrightarrow>
   reconnectBackoffFactor s' = reconnectBackoffFactor s \<Longrightarrow>
   reconnectMaxDelayMs s' = reconnectMaxDelayMs s \<Longrightarrow>
   reconnectAttempt s' = reconnectAttempt s \<Longrightarrow>
   scheduled_delays (effects s') = scheduled_delays (effects s) \<Longrightarrow>
   backoff_inv s' = backoff_inv s"
  by (simp add: backoff_inv_def)

lemma backoff_inv_reset:
  "reconnectAttempt s = 0 \<Longrightarrow> backoff_inv s"
  by (simp add: backoff_inv_def)

lemma scheduleReconnect_backoff_inv:
  "backoff_inv s \<Longrightarrow> backoff_inv (scheduleReconnect s)"
proof (cases "\<not> autoReconnect s \<or> disposed s \<or> reconnectTimer s \<noteq> None")
  case True
  then show "backoff_inv s \<Longrightarrow> backoff_inv (scheduleReconnect s)"
    by (simp add: scheduleReconnect_noop)
next
  case False
  assume inv: "backoff_inv s"
  let ?ds = "scheduled_delays (effects s)"
  let ?a = "reconnectAttempt s"
  let ?f = "\<lambda>k. js_min (js_mul (reconnectInitialDelayMs s)
                    (js_pow (reconnectBackoffFactor s) k))
             (reconnectMaxDelayMs s)"
  have a: "?a \<le> length ?ds" "drop (length ?ds - ?a) ?ds = map ?f [0..<?a]"
    using inv by (simp_all add: backoff_inv_def Let_def)
  have s': "scheduled_delays (effects (scheduleReconnect s)) = ?ds @ [?f ?a]"
    "reconnectAttempt (scheduleReconnect s) = Suc ?a"
    using False by (simp_all add: scheduleReconnect_def Let_def reconnectDelay_def)
  have "drop (length (?ds @ [?f ?a]) - Suc ?a) (?ds @ [?f ?a]) = map ?f [0..<Suc ?a]"
    using a by simp
  then show "backoff_inv (scheduleReconnect s)"
    using a(1) unfolding backoff_inv_def Let_def s'
    by (simp add: scheduleReconnect_same)
qed

lemma rejectQueued_backoff:
  "backoff_state (rejectQueuedRequests err s) = backoff_state s"
  by (simp add: backoff_state_def rejectQueuedRequests_def foldl_rejectQueued_step
      delays_reject_queued)

lemma rejectPending_backoff:
  "backoff_state (rejectPendingRequests err s) = backoff_state s"
  by (simp add: backoff_state_def rejectPendingRequests_def foldl_rejectPending_step
      delays_reject_pending [of _ "map snd (pendingRequests s)"] del: map_map)

lemma run_catch_backoff_inv: "backoff_inv s \<Longrightarrow> backoff_inv (run_catch s h)"
  by (cases h)
    (simp_all add: run_catch_def scheduleReconnect_backoff_inv
      backoff_inv_cong [OF rejectQueued_backoff])

lemma foldl_run_catch_backoff_inv: "backoff_inv s \<Longrightarrow> backoff_inv (foldl run_catch s hs)"
  by (induction hs arbitrary: s) (simp_all add: run_catch_backoff_inv)

lemma connect_catch_backoff_inv: "backoff_inv s \<Longrightarrow> backoff_inv (connect_catch h s)"
proof (cases "disposed s")
  case True
  then show "backoff_inv s \<Longrightarrow> backoff_inv (connect_catch h s)"
    by (simp add: connect_catch_disposed run_catch_backoff_inv)
next
  case False
  then show "backoff_inv s \<Longrightarrow> backoff_inv (connect_catch h s)"
    by (simp add: connect_catch_not_disposed backoff_inv_def split: option.splits)
qed

lemma request_backoff_inv: "backoff_inv s \<Longrightarrow> backoff_inv (request v u b t s)"
proof -
  assume inv: "backoff_inv s"
  let ?s1 = "s\<lparr>nextRequestId := nextRequestId s + 1\<rparr>"
  have 1: "backoff_inv ?s1" using inv by (simp add: backoff_inv_def)
  have 2: "backoff_inv (sendRequest r ?s1)" for r
    using 1 by (simp add: backoff_inv_cong [OF sendRequest_backoff])
  have 3: "backoff_inv (connect_catch RequestCatch (?s1\<lparr>queuedRequests := q\<rparr>))" for q
    using 1 by (intro connect_catch_backoff_inv) (simp add: backoff_inv_def)
  show ?thesis
    using 1 2 3 by (simp add: request_def Let_def) (simp add: backoff_inv_def)
qed

lemma dispose_backoff_inv: "backoff_inv s \<Longrightarrow> backoff_inv (dispose s)"
proof -
  assume inv: "backoff_inv s"
  have "scheduled_delays (effects (dispose s)) = scheduled_delays (effects s)"
    by (simp add: dispose_effects delays_reject_pending [of _ "map snd (pendingRequests s)"]
        delays_reject_queued del: map_map split: option.splits)
  moreover have "reconnectAttempt (dispose s) = reconnectAttempt s"
    "reconnectInitialDelayMs (dispose s) = reconnectInitialDelayMs s"
    "reconnectBackoffFactor (dispose s) = reconnectBackoffFactor s"
    "reconnectMaxDelayMs (dispose s) = reconnectMaxDelayMs s"
    by (simp_all add: dispose_def Let_def stopPing_def rejectPendingRequests_def
        rejectQueuedRequests_def split: option.splits)
  ultimately show ?thesis using inv by (simp add: backoff_inv_fields [of "dispose s" s])
qed

lemma onOpen_backoff_inv: "backoff_inv s \<Longrightarrow> backoff_inv (onOpen w s)"
proof (cases "connectPromise s")
  case None
  then show "backoff_inv s \<Longrightarrow> backoff_inv (onOpen w s)" by (simp add: onOpen_def)
next
  case (Some hs)
  then have "reconnectAttempt (onOpen w s) = 0"
    using onOpen_backoff [of s w] by (simp add: backoff_state_def)
  then show "backoff_inv (onOpen w s)" by (rule backoff_inv_reset)
qed

lemma onConnectFailure_backoff_inv: "backoff_inv s \<Longrightarrow> backoff_inv (onConnectFailure f s)"
proof (cases "connectPromise s")
  case None
  then show "backoff_inv s \<Longrightarrow> backoff_inv (onConnectFailure f s)"
    by (simp add: onConnectFailure_def)
next
  case (Some hs)
  assume inv: "backoff_inv s"
  let ?s1 = "if f = CloseBeforeOpen then s else s\<lparr>effects := effects s @ [CloseSocket]\<rparr>"
  let ?s2 = "scheduleReconnect ?s1"
  let ?s3 = "?s2\<lparr>connectPromise := None,
                   effects := effects ?s2 @ [ConnectRejected (connect_error f)]\<rparr>"
  have "backoff_inv ?s1" using inv by (simp add: backoff_inv_def)
  then have "backoff_inv ?s2" by (rule scheduleReconnect_backoff_inv)
  then have "backoff_inv ?s3" by (simp add: backoff_inv_def)
  then have "backoff_inv (foldl run_catch ?s3 hs)" by (rule foldl_run_catch_backoff_inv)
  then show "backoff_inv (onConnectFailure f s)"
    using Some by (simp add: onConnectFailure_def Let_def)
qed

lemma onReconnectTimer_backoff_inv: "backoff_inv s \<Longrightarrow> backoff_inv (onReconnectTimer s)"
proof (cases "reconnectTimer s")
  case None
  then show "backoff_inv s \<Longrightarrow> backoff_inv (onReconnectTimer s)"
    by (simp add: onReconnectTimer_def)
next
  case (Some d)
  assume "backoff_inv s"
  then have "backoff_inv (s\<lparr>reconnectTimer := None\<rparr>)" by (simp add: backoff_inv_def)
  then show "backoff_inv (onReconnectTimer s)"
    using Some by (simp add: onReconnectTimer_def connect_catch_backoff_inv)
qed

lemma onMessage_backoff_inv:
  "backoff_inv s \<Longrightarrow> onMessage ev s = Inr s' \<Longrightarrow> backoff_inv s'"
  by (cases ev)
    (auto simp: onMessage_def Let_def backoff_inv_def split: option.splits if_splits)

lemma onClose_backoff_inv: "backoff_inv s \<Longrightarrow> backoff_inv (onClose s)"
proof -
  assume inv: "backoff_inv s"
  have "reconnectInitialDelayMs (closed s) = reconnectInitialDelayMs s"
    "reconnectBackoffFactor (closed s) = reconnectBackoffFactor s"
    "reconnectMaxDelayMs (closed s) = reconnectMaxDelayMs s"
    by (simp_all add: closed_def rejectPendingRequests_def stopPing_def)
  then have "backoff_inv (closed s) = backoff_inv s"
    by (intro backoff_inv_fields) (simp_all add: closed_fields closed_observed)
  then have "backoff_inv (closed s)" using inv by simp
  then show ?thesis by (simp add: onClose_closed scheduleReconnect_backoff_inv)
qed

lemma step_backoff_inv: "backoff_inv s \<Longrightarrow> backoff_inv (step e s)"
proof (cases e)
  case CallConnect
  then show "backoff_inv s \<Longrightarrow> backoff_inv (step e s)"
    by (simp add: connect_def backoff_inv_def split: option.splits)
next
  case (CallRequest v u b t)
  then show "backoff_inv s \<Longrightarrow> backoff_inv (step e s)" by (simp add: request_backoff_inv)
next
  case CallDispose
  then show "backoff_inv s \<Longrightarrow> backoff_inv (step e s)" by (simp add: dispose_backoff_inv)
next
  case (SocketOpened w)
  then show "backoff_inv s \<Longrightarrow> backoff_inv (step e s)" by (simp add: onOpen_backoff_inv)
next
  case (ConnectFailed f)
  then show "backoff_inv s \<Longrightarrow> backoff_inv (step e s)"
    by (simp add: onConnectFailure_backoff_inv)
next
  case ReconnectTimerFired
  then show "backoff_inv s \<Longrightarrow> backoff_inv (step e s)"
    by (simp add: onReconnectTimer_backoff_inv)
next
  case (RequestTimeoutFired i)
  then show "backoff_inv s \<Longrightarrow> backoff_inv (step e s)"
    by (simp add: onRequestTimeout_def backoff_inv_def split: option.splits)
next
  case PingTick
  then show "backoff_inv s \<Longrightarrow> backoff_inv (step e s)"
    by (auto simp: onPingTick_def backoff_inv_def Let_def split: option.splits prod.splits)
next
  case (MessageReceived ev)
  then show "backoff_inv s \<Longrightarrow> backoff_inv (step e s)"
    by (auto simp: onMessage_backoff_inv split: option.splits sum.splits)
next
  case SocketClosed
  then show "backoff_inv s \<Longrightarrow> backoff_inv (step e s)"
    by (simp add: onClose_backoff_inv split: option.splits)
next
  case (SocketState rs)
  then show "backoff_inv s \<Longrightarrow> backoff_inv (step e s)"
    by (simp add: backoff_inv_def split: option.splits)
qed

lemma reachable_backoff_inv: "reachable s \<Longrightarrow> backoff_inv s"
proof (induction rule: reachable.induct)
  case (reachable_new options)
  then show ?case by (simp add: backoff_inv_def new_WebSocketTransport_def)
next
  case (reachable_step s e)
  then show ?case by (simp add: step_backoff_inv)
qed

lemma backoff_inv_delays:
  assumes "backoff_inv s"
  shows "\<exists>pre. scheduled_delays (effects s) =
      pre @ map (\<lambda>k. js_min (js_mul (reconnectInitialDelayMs s)
                    (js_pow (reconnectBackoffFactor s) k))
             (reconnectMaxDelayMs s)) [0..<reconnectAttempt s]"
proof -
  let ?ds = "scheduled_delays (effects s)"
  have "drop (length ?ds - reconnectAttempt s) ?ds =
      map (\<lambda>k. js_min (js_mul (reconnectInitialDelayMs s)
                    (js_pow (reconnectBackoffFactor s) k))
             (reconnectMaxDelayMs s)) [0..<reconnectAttempt s]"
    using assms by (simp add: backoff_inv_def Let_def)
  then have "?ds = take (length ?ds - reconnectAttempt s) ?ds @
      map (\<lambda>k. js_min (js_mul (reconnectInitialDelayMs s)
                    (js_pow (reconnectBackoffFactor s) k))
             (reconnectMaxDelayMs s)) [0..<reconnectAttempt s]"
    using append_take_drop_id [of "length ?ds - reconnectAttempt s" ?ds] by simp
  then show ?thesis by blast
qed

lemma failed_attempts_reachable: "reachable s \<Longrightarrow> reachable (failed_attempts fs s)"
proof (induction fs arbitrary: s)
  case Nil
  then show ?case by simp
next
  case (Cons f fs)
  have "reachable (step ReconnectTimerFired (step (ConnectFailed f) s))"
    using Cons.prems by (intro reachable_step)
  then show ?case using Cons.IH by simp
qed

lemma example_connecting_reachable: "reachable example_connecting"
proof -
  have "step CallConnect (new_WebSocketTransport no_options) = example_connecting"
    by (simp add: example_new_is_new) (simp add: example_new_def example_connecting_def connect_def)
  moreover have "reachable (step CallConnect
      (new_WebSocketTransport no_options :: string WebSocketTransport))"
    by (intro reachable_step reachable_new)
  ultimately show ?thesis by simp
qed

subsection \<open>The example states are reachable\<close>


lemma submit_all_reachable: "reachable s \<Longrightarrow> reachable (submit_all calls s)"
proof (induction calls arbitrary: s)
  case Nil
  then show ?case by simp
next
  case (Cons c calls)
  obtain v u b t where c: "c = (v, u, b, t)" by (cases c) auto
  have "reachable (step (CallRequest v u b t) s)" using Cons.prems by (rule reachable_step)
  then show ?case using Cons.IH by (simp add: c)
qed

lemma example_new_reachable: "reachable example_new"
  using reachable_new [of no_options, where ?'b = string] by (simp add: example_new_is_new)



lemma example_buffered_is_reached:
  "submit_all [(GET, ''/remote/info'', None, None),
               (PUT, ''/remote/object/call'', Some (Json ''{}''), None),
               (PUT, ''/remote/object/property'', Some (Json ''{}''), None)] example_new
   = example_buffered"
  by (simp add: example_new_def example_buffered_def request_def Let_def socketOpen_def
      connect_catch_def connect_def)

lemma example_buffered_reachable: "reachable example_buffered"
  using submit_all_reachable [OF example_new_reachable] example_buffered_is_reached
  by metis

lemma example_capacity_two_is_new:
  "new_WebSocketTransport (no_options\<lparr>opt_maxQueueSize := Some 2\<rparr>) = example_capacity_two"
  by (simp add: new_WebSocketTransport_def no_options_def example_new_def
      example_capacity_two_def
      DEFAULT_REQUEST_TIMEOUT_MS_def DEFAULT_PING_INTERVAL_MS_def
      DEFAULT_RECONNECT_INITIAL_DELAY_MS_def DEFAULT_RECONNECT_MAX_DELAY_MS_def
      DEFAULT_RECONNECT_BACKOFF_FACTOR_def)

lemma example_queue_full_reachable: "reachable example_queue_full"
proof -
  have "reachable example_capacity_two"
    using reachable_new [of "no_options\<lparr>opt_maxQueueSize := Some 2\<rparr>", where ?'b = string]
    by (simp add: example_capacity_two_is_new)
  then show ?thesis
    using submit_all_reachable example_queue_full_is_reached by metis
qed





lemma example_gentle_connecting_is_reached:
  "step CallConnect (new_WebSocketTransport example_gentle_options) = example_gentle_connecting"
  by (simp add: new_WebSocketTransport_def example_gentle_options_def no_options_def
      example_gentle_connecting_def connect_def
      DEFAULT_REQUEST_TIMEOUT_MS_def DEFAULT_PING_INTERVAL_MS_def
      DEFAULT_RECONNECT_INITIAL_DELAY_MS_def DEFAULT_RECONNECT_MAX_DELAY_MS_def
      DEFAULT_MAX_QUEUE_SIZE_def)

lemma example_gentle_connecting_reachable: "reachable example_gentle_connecting"
proof -
  have "reachable (step CallConnect
      (new_WebSocketTransport example_gentle_options :: string WebSocketTransport))"
    by (intro reachable_step reachable_new)
  then show ?thesis by (simp only: example_gentle_connecting_is_reached)
qed



lemma example_buffered_bigint_is_reached:
  "submit_all example_bigint_calls example_new = example_buffered_bigint"
  by (simp add: example_bigint_calls_def example_new_def example_buffered_bigint_def request_def
      Let_def socketOpen_def connect_catch_def connect_def)

lemma example_buffered_bigint_reachable: "reachable example_buffered_bigint"
  using submit_all_reachable [OF example_new_reachable] example_buffered_bigint_is_reached
  by metis

subsection \<open>What \<^verbatim>\<open>dispose\<close> does in every state\<close>

text \<open>
  \<^verbatim>\<open>dispose()\<close> rejects every call of the map of pending calls and every call of the queue
  exactly once with the error "Transport disposed" (the settlements it adds are one failure
  for each of them, in order, and nothing else), clears the timeout timer of each pending
  call, cancels the reconnect timer if one is armed, stops the ping interval, closes and
  drops the attached socket, and empties the map and the queue. Calling it a second time
  changes nothing: no field and no effect.
\<close>

lemma dispose_settles_all_once_and_is_idempotent:
  "effects (dispose s) = effects s
     @ (if pingTimer s then [ClearPingInterval] else [])
     @ (if reconnectTimer s \<noteq> None then [ClearReconnectTimer] else [])
     @ concat (map (\<lambda>r. (if timer r then [ClearTimeout (requestId r)] else []) @
                            [RejectCall (requestId r) TransportDisposed])
                (map snd (pendingRequests s)))
     @ map (\<lambda>r. RejectCall (requestId r) TransportDisposed) (queuedRequests s)
     @ (case socket s of None \<Rightarrow> []
        | Some w \<Rightarrow> if readyState w = OPEN \<or> readyState w = CONNECTING then [CloseSocket] else [])
   \<and> settlements (effects (dispose s)) = settlements (effects s)
       @ map (\<lambda>r. (requestId r, Failed TransportDisposed))
           (map snd (pendingRequests s) @ queuedRequests s)
   \<and> pendingRequests (dispose s) = [] \<and> queuedRequests (dispose s) = []
   \<and> reconnectTimer (dispose s) = None \<and> \<not> pingTimer (dispose s)
   \<and> socket (dispose s) = None \<and> \<not> connectedState (dispose s) \<and> disposed (dispose s)
   \<and> dispose (dispose s) = dispose s"
proof -
  have "settlements (effects (dispose s)) = settlements (effects s)
       @ map (\<lambda>r. (requestId r, Failed TransportDisposed))
           (map snd (pendingRequests s) @ queuedRequests s)"
    by (simp add: dispose_effects settlements_reject_pending [of _ "map snd (pendingRequests s)"]
          settlements_reject_queued del: map_map split: option.splits)
  then show ?thesis
    using dispose_effects [of s] dispose_idem [of s] by (simp add: dispose_fields)
qed

lemma dispose_three_pending_example:
  "settlements (effects example_three_pending) = []
   \<and> settlements (effects (dispose example_three_pending)) =
       [(1, Failed TransportDisposed), (2, Failed TransportDisposed), (3, Failed TransportDisposed)]
   \<and> dispose (dispose example_three_pending) = dispose example_three_pending"
  using dispose_settles_all_once_and_is_idempotent [of example_three_pending]
  by (simp add: example_three_pending_def)

section \<open>The properties\<close>


text \<open>
  C1, as the specification states it, does not hold: the identifier is taken from
  \<open>nextRequestId\<close> when the call is submitted. A call buffered by a transport just made is
  in the queue with identifier 1 and the counter has moved on, though no frame was written.
  The frames show it: with two calls buffered (1 and 2), a third call rejected because the
  queue is full uses up 3, and the call sent after the flush goes out as 4.
\<close>

theorem identifier_assigned_before_send_counterexample:
  "frames (effects (request GET ''/remote/info'' None None example_new)) = []
   \<and> map requestId (queuedRequests (request GET ''/remote/info'' None None example_new)) = [1]
   \<and> nextRequestId (request GET ''/remote/info'' None None example_new)
       \<noteq> nextRequestId example_new
   \<and> map frame_id (frames (effects
         (request PUT ''/remote/object/call'' None None
           (onOpen example_socket
             (request PUT ''/remote/batch'' None None example_queue_full))))) = [1, 2, 4]"
  by (simp add: example_new_def example_queue_full_def example_socket_def request_def Let_def
      socketOpen_def connect_catch_def connect_def onOpen_def attachSocket_def
      startPing_def stopPing_def flush_step flush_empty sendRequest_def socket_send_def
      envelopeOf_def)

text \<open>
  C1, amended. The identifier of a call is assigned when the call is submitted:
  \<^verbatim>\<open>request\<close> always takes the current value of \<open>nextRequestId\<close> and increments the
  counter. A call that is buffered is queued with that identifier, no frame being written
  yet, and every frame a later flush writes carries the identifier stored with the buffered
  call.
\<close>

theorem identifier_assigned_at_submission:
  "nextRequestId (request v u b t s) = nextRequestId s + 1
   \<and> (\<not> (connectedState s \<and> socketOpen s) \<and> disconnectedBehavior s = Queue
        \<and> int (length (queuedRequests s)) < maxQueueSize s \<and> \<not> disposed s \<longrightarrow>
        queuedRequests (request v u b t s) = queuedRequests s @ [outboundOf v u b t s]
        \<and> requestId (outboundOf v u b t s) = nextRequestId s
        \<and> frames (effects (request v u b t s)) = frames (effects s))
   \<and> (connectPromise s \<noteq> None \<longrightarrow>
        (\<exists>oks. length oks \<le> length (queuedRequests s)
           \<and> queuedRequests (onOpen w s) = drop (length oks) (queuedRequests s)
           \<and> map frame_id (frames (effects (onOpen w s))) =
               map frame_id (frames (effects s)) @
               map (requestId \<circ> fst) (filter snd (zip (queuedRequests s) oks))))"
proof (intro conjI impI)
  show "nextRequestId (request v u b t s) = nextRequestId s + 1"
    by (rule request_nextRequestId)
next
  assume a: "\<not> (connectedState s \<and> socketOpen s) \<and> disconnectedBehavior s = Queue
        \<and> int (length (queuedRequests s)) < maxQueueSize s \<and> \<not> disposed s"
  then have pre: "\<not> (connectedState s \<and> socketOpen s)" "disconnectedBehavior s = Queue"
    "int (length (queuedRequests s)) < maxQueueSize s" "\<not> disposed s"
    by auto
  show "queuedRequests (request v u b t s) = queuedRequests s @ [outboundOf v u b t s]"
    "frames (effects (request v u b t s)) = frames (effects s)"
    by (simp_all add: request_buffered_fields [OF pre])
  show "requestId (outboundOf v u b t s) = nextRequestId s" by simp
next
  assume "connectPromise s \<noteq> None"
  from onOpen_flushes [OF this, of w] obtain oks where oks:
    "length oks \<le> length (queuedRequests s)"
    "queuedRequests (onOpen w s) = drop (length oks) (queuedRequests s)"
    "frames (effects (onOpen w s)) =
         frames (effects s) @ map (envelopeOf \<circ> fst) (filter snd (zip (queuedRequests s) oks))"
    by blast
  show "\<exists>oks. length oks \<le> length (queuedRequests s)
           \<and> queuedRequests (onOpen w s) = drop (length oks) (queuedRequests s)
           \<and> map frame_id (frames (effects (onOpen w s))) =
               map frame_id (frames (effects s)) @
               map (requestId \<circ> fst) (filter snd (zip (queuedRequests s) oks))"
    using oks by (intro exI [of _ oks]) (simp add: comp_def)
qed

theorem identifier_assigned_at_submission_witness:
  "\<not> (connectedState example_buffered \<and> socketOpen example_buffered)
   \<and> disconnectedBehavior example_buffered = Queue
   \<and> int (length (queuedRequests example_buffered)) < maxQueueSize example_buffered
   \<and> \<not> disposed example_buffered \<and> connectPromise example_buffered \<noteq> None
   \<and> nextRequestId example_buffered = 4
   \<and> nextRequestId (request GET ''/remote/info'' None None example_buffered) = 5
   \<and> map requestId (queuedRequests (request GET ''/remote/info'' None None example_buffered))
       = [1, 2, 3, 4]
   \<and> frames (effects (request GET ''/remote/info'' None None example_buffered)) = []
   \<and> (\<exists>oks. length oks \<le> 3
         \<and> map frame_id (frames (effects (onOpen example_closing_socket example_buffered))) =
             map (requestId \<circ> fst) (filter snd (zip (queuedRequests example_buffered) oks)))"
proof -
  note inst = identifier_assigned_at_submission
      [where s = example_buffered and w = example_closing_socket and v = GET
         and u = "''/remote/info''" and b = None and t = None]
  have cp: "connectPromise example_buffered \<noteq> None"
    by (simp add: example_buffered_def)
  from inst cp obtain oks where oks:
    "length oks \<le> length (queuedRequests example_buffered)"
    "map frame_id (frames (effects (onOpen example_closing_socket example_buffered))) =
       map frame_id (frames (effects example_buffered)) @
       map (requestId \<circ> fst) (filter snd (zip (queuedRequests example_buffered) oks))"
    by blast
  have fl: "\<exists>oks. length oks \<le> 3
         \<and> map frame_id (frames (effects (onOpen example_closing_socket example_buffered))) =
             map (requestId \<circ> fst) (filter snd (zip (queuedRequests example_buffered) oks))"
  proof (intro exI [of _ oks] conjI)
    show "length oks \<le> 3" using oks(1) by (simp add: example_buffered_def)
    have "frames (effects example_buffered) = []" by (simp add: example_buffered_def)
    then show "map frame_id (frames (effects (onOpen example_closing_socket example_buffered))) =
             map (requestId \<circ> fst) (filter snd (zip (queuedRequests example_buffered) oks))"
      using oks(2) by simp
  qed
  have rest: "\<not> (connectedState example_buffered \<and> socketOpen example_buffered)
   \<and> disconnectedBehavior example_buffered = Queue
   \<and> int (length (queuedRequests example_buffered)) < maxQueueSize example_buffered
   \<and> \<not> disposed example_buffered
   \<and> nextRequestId example_buffered = 4
   \<and> nextRequestId (request GET ''/remote/info'' None None example_buffered) = 5
   \<and> map requestId (queuedRequests (request GET ''/remote/info'' None None example_buffered))
       = [1, 2, 3, 4]
   \<and> frames (effects (request GET ''/remote/info'' None None example_buffered)) = []"
    using inst
    by (simp add: example_buffered_def socketOpen_def outboundOf_def)
  show ?thesis using rest cp fl by blast
qed

text \<open>
  C2, as the specification states it, does not hold: the attempt count is not incremented
  once for every failed attempt. \<^verbatim>\<open>scheduleReconnect\<close> returns at once while a reconnect
  timer is armed, so an attempt that fails while the timer of an earlier failure is armed
  schedules nothing and is not counted. On the transport whose first attempt is in flight:
  that attempt times out (count 1, delay 250); \<^verbatim>\<open>connect()\<close> starts a second attempt, which
  fails while the timer is armed; the timer fires and the third attempt fails. Three
  attempts have failed, the count is 2, and the delays scheduled are 250 and 500.
\<close>

theorem attempt_count_skips_failure_while_timer_armed_counterexample:
  "autoReconnect example_connecting
   \<and> connect_rejections (effects (run example_overlapping_failures example_connecting)) =
       [ConnectTimedOut, ErrorDuringConnect, ClosedDuringConnect]
   \<and> reconnectAttempt (run example_overlapping_failures example_connecting) = 2
   \<and> scheduled_delays (effects (run example_overlapping_failures example_connecting)) =
       [Num 250, Num 500]"
  by (simp add: run_def example_overlapping_failures_def example_connecting_def
      onConnectFailure_def scheduleReconnect_def reconnectDelay_def js_round_def
      representable_def Let_def connect_error_def connect_def onReconnectTimer_def
      connect_catch_def run_catch_def)

text \<open>
  C2, amended. The attempt count is incremented once for every reconnect that is
  scheduled, not for every failed attempt. With reconnecting enabled, a failure of the
  attempt in flight while no reconnect timer is armed arms one with the delay
  \<^verbatim>\<open>Math.min(initialDelay * backoffFactor ** attemptCount, maxDelay)\<close> and adds one to the
  count; a failure while a reconnect timer is armed schedules nothing and leaves the count.
  So in a run of attempts that fail one after the other, each started by the timer of the
  failure before, the delay of the \<open>k\<close>-th failure is that of the formula for the count
  \<open>attemptCount + k\<close>. The delay is \<open>min (initialDelay * backoffFactor ^ attemptCount)
  maxDelay\<close> where the power and the product are computed exactly, a fractional factor
  included. With an initial delay of 250, a factor of 2 and a maximum of 5000, starting
  from a count of 0, the delays are 250, 500, 1000, 2000, 4000 and then 5000 for good.
  When an attempt succeeds the count is set back to 0; at the next closure the delay is
  that of the formula for the count 0 (250 with the defaults), unless a reconnect timer is
  still armed, in which case nothing is scheduled. Whatever happens to a transport, in
  whatever order, the delays it has scheduled since the count was last 0 are those of the
  formula for the counts from 0 up to the present one.
\<close>

theorem reconnect_delays_follow_backoff_per_scheduled_reconnect:
  "(autoReconnect s \<and> \<not> disposed s \<and> connectPromise s \<noteq> None \<and> reconnectTimer s = None \<longrightarrow>
      scheduled_delays (effects (onConnectFailure f s)) =
        scheduled_delays (effects s) @
        [js_min (js_mul (reconnectInitialDelayMs s)
                        (js_pow (reconnectBackoffFactor s) (reconnectAttempt s)))
                (reconnectMaxDelayMs s)]
      \<and> reconnectAttempt (onConnectFailure f s) = reconnectAttempt s + 1
      \<and> connect_rejections (effects (onConnectFailure f s)) =
          connect_rejections (effects s) @ [connect_error f])
   \<and> (autoReconnect s \<and> connectPromise s \<noteq> None \<and> reconnectTimer s = Some d \<longrightarrow>
      scheduled_delays (effects (onConnectFailure f s)) = scheduled_delays (effects s)
      \<and> reconnectAttempt (onConnectFailure f s) = reconnectAttempt s
      \<and> reconnectTimer (onConnectFailure f s) = Some d
      \<and> connect_rejections (effects (onConnectFailure f s)) =
          connect_rejections (effects s) @ [connect_error f])
   \<and> (autoReconnect s \<and> \<not> disposed s \<and> \<not> connectedState s \<and> reconnectTimer s = None
      \<and> connectPromise s \<noteq> None \<longrightarrow>
      scheduled_delays (effects (failed_attempts fs s)) =
        scheduled_delays (effects s) @
        map (\<lambda>k. js_min (js_mul (reconnectInitialDelayMs s)
                                 (js_pow (reconnectBackoffFactor s) (reconnectAttempt s + k)))
                         (reconnectMaxDelayMs s)) [0..<length fs]
      \<and> reconnectAttempt (failed_attempts fs s) = reconnectAttempt s + length fs)
   \<and> (autoReconnect s \<and> \<not> disposed s \<and> \<not> connectedState s \<and> reconnectTimer s = None
      \<and> connectPromise s \<noteq> None \<and> reconnectAttempt s = 0
      \<and> reconnectInitialDelayMs s = Num 250 \<and> reconnectBackoffFactor s = Num 2
      \<and> reconnectMaxDelayMs s = Num 5000 \<longrightarrow>
      scheduled_delays (effects (failed_attempts fs s)) =
        scheduled_delays (effects s) @
        map (\<lambda>k. Num (if k < 5 then 250 * 2 ^ k else 5000)) [0..<length fs])
   \<and> (reconnectInitialDelayMs s = Num i \<and> reconnectBackoffFactor s = Num b
      \<and> reconnectMaxDelayMs s = Num m
      \<and> representable (b ^ reconnectAttempt s) \<and> representable (i * b ^ reconnectAttempt s)
      \<longrightarrow> reconnectDelay s = Num (min (i * b ^ reconnectAttempt s) m))
   \<and> (connectPromise s \<noteq> None \<longrightarrow> reconnectAttempt (onOpen w s) = 0)
   \<and> (connectPromise s \<noteq> None \<and> autoReconnect s \<and> \<not> disposed s \<and> reconnectTimer s = None \<longrightarrow>
      scheduled_delays (effects (onClose (onOpen w s))) =
        scheduled_delays (effects s) @
        [js_min (js_mul (reconnectInitialDelayMs s) (Num 1)) (reconnectMaxDelayMs s)])
   \<and> (connectPromise s \<noteq> None \<and> reconnectTimer s = Some d \<longrightarrow>
      scheduled_delays (effects (onClose (onOpen w s))) = scheduled_delays (effects s)
      \<and> reconnectTimer (onClose (onOpen w s)) = Some d)
   \<and> (reachable s \<longrightarrow>
      (\<exists>pre. scheduled_delays (effects s) =
         pre @ map (\<lambda>k. js_min (js_mul (reconnectInitialDelayMs s)
                                       (js_pow (reconnectBackoffFactor s) k))
                               (reconnectMaxDelayMs s)) [0..<reconnectAttempt s]))"
proof (intro conjI impI)
  assume a: "autoReconnect s \<and> \<not> disposed s \<and> connectPromise s \<noteq> None \<and> reconnectTimer s = None"
  then have p: "autoReconnect s" "\<not> disposed s" "reconnectTimer s = None"
    "connectPromise s \<noteq> None"
    by auto
  note r = onConnectFailure_in_flight [OF p, of f]
  show "scheduled_delays (effects (onConnectFailure f s)) =
        scheduled_delays (effects s) @
        [js_min (js_mul (reconnectInitialDelayMs s)
                        (js_pow (reconnectBackoffFactor s) (reconnectAttempt s)))
                (reconnectMaxDelayMs s)]"
    by (simp add: r reconnectDelay_def)
  show "reconnectAttempt (onConnectFailure f s) = reconnectAttempt s + 1"
    by (simp add: r)
  show "connect_rejections (effects (onConnectFailure f s)) =
          connect_rejections (effects s) @ [connect_error f]"
    by (simp add: r)
next
  assume a: "autoReconnect s \<and> connectPromise s \<noteq> None \<and> reconnectTimer s = Some d"
  then have p: "autoReconnect s" "reconnectTimer s \<noteq> None" "connectPromise s \<noteq> None"
    by auto
  note r = onConnectFailure_armed [OF p, of f]
  show "scheduled_delays (effects (onConnectFailure f s)) = scheduled_delays (effects s)"
    by (simp add: r)
  show "reconnectAttempt (onConnectFailure f s) = reconnectAttempt s"
    by (simp add: r)
  show "reconnectTimer (onConnectFailure f s) = Some d"
    using a by (simp add: r)
  show "connect_rejections (effects (onConnectFailure f s)) =
          connect_rejections (effects s) @ [connect_error f]"
    by (simp add: r)
next
  assume a: "autoReconnect s \<and> \<not> disposed s \<and> \<not> connectedState s \<and> reconnectTimer s = None
      \<and> connectPromise s \<noteq> None"
  then show "scheduled_delays (effects (failed_attempts fs s)) =
        scheduled_delays (effects s) @
        map (\<lambda>k. js_min (js_mul (reconnectInitialDelayMs s)
                                 (js_pow (reconnectBackoffFactor s) (reconnectAttempt s + k)))
                         (reconnectMaxDelayMs s)) [0..<length fs]"
    "reconnectAttempt (failed_attempts fs s) = reconnectAttempt s + length fs"
    using failed_attempts_delays [of s fs] by simp_all
next
  assume a: "autoReconnect s \<and> \<not> disposed s \<and> \<not> connectedState s \<and> reconnectTimer s = None
      \<and> connectPromise s \<noteq> None \<and> reconnectAttempt s = 0
      \<and> reconnectInitialDelayMs s = Num 250 \<and> reconnectBackoffFactor s = Num 2
      \<and> reconnectMaxDelayMs s = Num 5000"
  then have "scheduled_delays (effects (failed_attempts fs s)) =
        scheduled_delays (effects s) @
        map (\<lambda>k. js_min (js_mul (Num 250) (js_pow (Num 2) k)) (Num 5000)) [0..<length fs]"
    using failed_attempts_delays [of s fs] by simp
  then show "scheduled_delays (effects (failed_attempts fs s)) =
        scheduled_delays (effects s) @
        map (\<lambda>k. Num (if k < 5 then 250 * 2 ^ k else 5000)) [0..<length fs]"
    unfolding default_delay .
next
  assume a: "reconnectInitialDelayMs s = Num i \<and> reconnectBackoffFactor s = Num b
      \<and> reconnectMaxDelayMs s = Num m
      \<and> representable (b ^ reconnectAttempt s) \<and> representable (i * b ^ reconnectAttempt s)"
  then show "reconnectDelay s = Num (min (i * b ^ reconnectAttempt s) m)"
    using exact_delay [of b "reconnectAttempt s" i m] by (simp add: reconnectDelay_def)
next
  assume "connectPromise s \<noteq> None"
  from onOpen_backoff [OF this, of w]
  show "reconnectAttempt (onOpen w s) = 0" by (simp add: backoff_state_def)
next
  assume "connectPromise s \<noteq> None \<and> autoReconnect s \<and> \<not> disposed s \<and> reconnectTimer s = None"
  then show "scheduled_delays (effects (onClose (onOpen w s))) =
        scheduled_delays (effects s) @
        [js_min (js_mul (reconnectInitialDelayMs s) (Num 1)) (reconnectMaxDelayMs s)]"
    by (intro onClose_after_onOpen) auto
next
  assume a: "connectPromise s \<noteq> None \<and> reconnectTimer s = Some d"
  then have p: "connectPromise s \<noteq> None" "reconnectTimer s = Some d" by auto
  show "scheduled_delays (effects (onClose (onOpen w s))) = scheduled_delays (effects s)"
    by (rule onClose_after_onOpen_armed(1) [OF p])
  show "reconnectTimer (onClose (onOpen w s)) = Some d"
    by (rule onClose_after_onOpen_armed(2) [OF p])
next
  assume "reachable s"
  then have "backoff_inv s" by (rule reachable_backoff_inv)
  then show "\<exists>pre. scheduled_delays (effects s) =
         pre @ map (\<lambda>k. js_min (js_mul (reconnectInitialDelayMs s)
                                       (js_pow (reconnectBackoffFactor s) k))
                               (reconnectMaxDelayMs s)) [0..<reconnectAttempt s]"
    by (rule backoff_inv_delays)
qed

theorem reconnect_delays_witness:
  "autoReconnect example_connecting \<and> \<not> disposed example_connecting
   \<and> \<not> connectedState example_connecting \<and> reconnectTimer example_connecting = None
   \<and> connectPromise example_connecting \<noteq> None \<and> reconnectAttempt example_connecting = 0
   \<and> reconnectInitialDelayMs example_connecting = Num 250
   \<and> reconnectBackoffFactor example_connecting = Num 2
   \<and> reconnectMaxDelayMs example_connecting = Num 5000
   \<and> scheduled_delays (effects (failed_attempts example_failures example_connecting)) =
       [Num 250, Num 500, Num 1000, Num 2000, Num 4000, Num 5000, Num 5000]
   \<and> reconnectAttempt (failed_attempts example_failures example_connecting) = 7
   \<and> scheduled_delays (effects (onConnectFailure ConnectTimeout example_connecting)) = [Num 250]
   \<and> reconnectAttempt (onConnectFailure ConnectTimeout example_connecting) = 1
   \<and> reconnectAttempt (onOpen example_socket example_connecting) = 0
   \<and> scheduled_delays (effects (onClose (onOpen example_socket example_connecting))) = [Num 250]
   \<and> reachable example_connecting
   \<and> autoReconnect example_retry_armed \<and> connectPromise example_retry_armed \<noteq> None
   \<and> reconnectTimer example_retry_armed = Some (Num 250)
   \<and> reconnectAttempt example_retry_armed = 1
   \<and> scheduled_delays (effects (onConnectFailure ErrorBeforeOpen example_retry_armed)) =
       [Num 250]
   \<and> reconnectAttempt (onConnectFailure ErrorBeforeOpen example_retry_armed) = 1
   \<and> connect_rejections (effects (onConnectFailure ErrorBeforeOpen example_retry_armed)) =
       [ConnectTimedOut, ErrorDuringConnect]
   \<and> reconnectAttempt (onOpen example_socket example_retry_armed) = 0
   \<and> scheduled_delays (effects (onClose (onOpen example_socket example_retry_armed))) =
       [Num 250]
   \<and> reconnectTimer (onClose (onOpen example_socket example_retry_armed)) = Some (Num 250)
   \<and> reconnectBackoffFactor example_gentle_connecting = Num (3 / 2)
   \<and> scheduled_delays (effects (failed_attempts example_three_failures
         example_gentle_connecting)) = [Num 250, Num 375, Num (1125 / 2)]
   \<and> representable ((3 / 2) ^ 2) \<and> representable (250 * (3 / 2) ^ 2)
   \<and> reconnectDelay (example_gentle_connecting\<lparr>reconnectAttempt := 2\<rparr>) = Num (1125 / 2)"
proof -
  have r: "representable ((3 / 2) ^ 2)" "representable (250 * (3 / 2) ^ 2)"
    by code_simp+
  have r1: "js_round 1 = Num 1" "js_round 250 = Num 250" "js_round (3 / 2) = Num (3 / 2)"
    "js_round 375 = Num 375" "js_round (9 / 4) = Num (9 / 4)"
    "js_round (1125 / 2) = Num (1125 / 2)"
    by code_simp+
  have one: "autoReconnect example_connecting \<and> \<not> disposed example_connecting
   \<and> \<not> connectedState example_connecting \<and> reconnectTimer example_connecting = None
   \<and> connectPromise example_connecting \<noteq> None \<and> reconnectAttempt example_connecting = 0
   \<and> reconnectInitialDelayMs example_connecting = Num 250
   \<and> reconnectBackoffFactor example_connecting = Num 2
   \<and> reconnectMaxDelayMs example_connecting = Num 5000
   \<and> scheduled_delays (effects (failed_attempts example_failures example_connecting)) =
       [Num 250, Num 500, Num 1000, Num 2000, Num 4000, Num 5000, Num 5000]
   \<and> reconnectAttempt (failed_attempts example_failures example_connecting) = 7
   \<and> scheduled_delays (effects (onConnectFailure ConnectTimeout example_connecting)) = [Num 250]
   \<and> reconnectAttempt (onConnectFailure ConnectTimeout example_connecting) = 1
   \<and> reconnectAttempt (onOpen example_socket example_connecting) = 0
   \<and> scheduled_delays (effects (onClose (onOpen example_socket example_connecting))) = [Num 250]"
    using reconnect_delays_follow_backoff_per_scheduled_reconnect
      [of example_connecting ConnectTimeout "Num 0" example_failures 250 2 5000 example_socket]
    by (simp add: example_connecting_def example_failures_def upt_7 js_round_def
        representable_def)
  have two: "autoReconnect example_retry_armed \<and> connectPromise example_retry_armed \<noteq> None
   \<and> reconnectTimer example_retry_armed = Some (Num 250)
   \<and> reconnectAttempt example_retry_armed = 1
   \<and> scheduled_delays (effects (onConnectFailure ErrorBeforeOpen example_retry_armed)) =
       [Num 250]
   \<and> reconnectAttempt (onConnectFailure ErrorBeforeOpen example_retry_armed) = 1
   \<and> connect_rejections (effects (onConnectFailure ErrorBeforeOpen example_retry_armed)) =
       [ConnectTimedOut, ErrorDuringConnect]
   \<and> reconnectAttempt (onOpen example_socket example_retry_armed) = 0
   \<and> scheduled_delays (effects (onClose (onOpen example_socket example_retry_armed))) =
       [Num 250]
   \<and> reconnectTimer (onClose (onOpen example_socket example_retry_armed)) = Some (Num 250)"
    using reconnect_delays_follow_backoff_per_scheduled_reconnect
      [of example_retry_armed ErrorBeforeOpen "Num 250" example_failures 250 2 5000
          example_socket]
    by (simp add: example_retry_armed_def connect_error_def)
  have three: "reconnectBackoffFactor example_gentle_connecting = Num (3 / 2)
   \<and> scheduled_delays (effects (failed_attempts example_three_failures
         example_gentle_connecting)) = [Num 250, Num 375, Num (1125 / 2)]"
    using reconnect_delays_follow_backoff_per_scheduled_reconnect
      [of example_gentle_connecting ConnectTimeout "Num 0" example_three_failures 250 "3 / 2"
          5000 example_socket] r1
    by (simp add: example_gentle_connecting_def example_three_failures_def upt_rec)
  have four: "reconnectDelay (example_gentle_connecting\<lparr>reconnectAttempt := 2\<rparr>) =
      Num (1125 / 2)"
    using reconnect_delays_follow_backoff_per_scheduled_reconnect
      [of "example_gentle_connecting\<lparr>reconnectAttempt := 2\<rparr>" ConnectTimeout "Num 0"
          example_three_failures 250 "3 / 2" 5000 example_socket] r
    by (simp add: example_gentle_connecting_def power2_eq_square)
  show ?thesis
    using one two three four r example_connecting_reachable by (intro conjI) blast+
qed

text \<open>
  C3. While the channel is not open and the policy is to queue, a call submitted when the
  queue already holds as many calls as its capacity is rejected at once with the error
  "queue limit reached": the queue is exactly as it was, no call leaves it, and no
  connection attempt is started for the call. In particular, of \<open>N + 1\<close> calls submitted to
  a disconnected transport of capacity \<open>N\<close> with an empty queue, the first \<open>N\<close> are buffered
  in order, none is settled, and the last one fails with the capacity error.
\<close>

theorem queue_overflow_rejects_newest_keeps_buffered:
  "(\<not> (connectedState s \<and> socketOpen s) \<and> disconnectedBehavior s = Queue
      \<and> int (length (queuedRequests s)) = maxQueueSize s \<longrightarrow>
      queuedRequests (request v u b t s) = queuedRequests s
      \<and> pendingRequests (request v u b t s) = pendingRequests s
      \<and> connectPromise (request v u b t s) = connectPromise s
      \<and> effects (request v u b t s) =
          effects s @ [RejectCall (nextRequestId s) (QueueLimitReached (maxQueueSize s))])
   \<and> (\<not> connectedState s0 \<and> \<not> disposed s0 \<and> disconnectedBehavior s0 = Queue
      \<and> queuedRequests s0 = [] \<and> maxQueueSize s0 = int (length calls) \<longrightarrow>
      map call_of (queuedRequests (submit_all calls s0)) = map (\<lambda>(v, u, b, t). (v, u, b)) calls
      \<and> settlements (effects (submit_all calls s0)) = settlements (effects s0)
      \<and> queuedRequests (request v u b t (submit_all calls s0)) =
          queuedRequests (submit_all calls s0)
      \<and> settlements (effects (request v u b t (submit_all calls s0))) =
          settlements (effects s0) @
          [(nextRequestId s0 + int (length calls),
            Failed (QueueLimitReached (int (length calls))))])"
proof (intro conjI impI)
  assume a: "\<not> (connectedState s \<and> socketOpen s) \<and> disconnectedBehavior s = Queue
      \<and> int (length (queuedRequests s)) = maxQueueSize s"
  then have r: "request v u b t s =
     s\<lparr>nextRequestId := nextRequestId s + 1,
       effects := effects s @
         [RejectCall (nextRequestId s) (QueueLimitReached (maxQueueSize s))]\<rparr>"
    by (intro request_overflow) auto
  show "queuedRequests (request v u b t s) = queuedRequests s"
    "pendingRequests (request v u b t s) = pendingRequests s"
    "connectPromise (request v u b t s) = connectPromise s"
    "effects (request v u b t s) =
          effects s @ [RejectCall (nextRequestId s) (QueueLimitReached (maxQueueSize s))]"
    by (simp_all add: r)
next
  assume a: "\<not> connectedState s0 \<and> \<not> disposed s0 \<and> disconnectedBehavior s0 = Queue
      \<and> queuedRequests s0 = [] \<and> maxQueueSize s0 = int (length calls)"
  let ?s = "submit_all calls s0"
  have sub: "map call_of (queuedRequests ?s) = map (\<lambda>(v, u, b, t). (v, u, b)) calls"
    "nextRequestId ?s = nextRequestId s0 + int (length calls)"
    "settlements (effects ?s) = settlements (effects s0)"
    "\<not> connectedState ?s" "disconnectedBehavior ?s = Queue" "maxQueueSize ?s = maxQueueSize s0"
    using submit_all_buffers [of s0 calls] a by simp_all
  have len: "length (queuedRequests ?s) = length calls"
    using arg_cong [OF sub(1), of length] by simp
  have r: "request v u b t ?s =
     ?s\<lparr>nextRequestId := nextRequestId ?s + 1,
       effects := effects ?s @
         [RejectCall (nextRequestId ?s) (QueueLimitReached (maxQueueSize ?s))]\<rparr>"
    using sub len a by (intro request_overflow) auto
  show "map call_of (queuedRequests ?s) = map (\<lambda>(v, u, b, t). (v, u, b)) calls"
    "settlements (effects ?s) = settlements (effects s0)"
    by (fact sub)+
  show "queuedRequests (request v u b t ?s) = queuedRequests ?s"
    by (simp add: r)
  show "settlements (effects (request v u b t ?s)) =
          settlements (effects s0) @
          [(nextRequestId s0 + int (length calls),
            Failed (QueueLimitReached (int (length calls))))]"
    using sub a by (simp add: r)
qed

theorem queue_overflow_witness:
  "\<not> (connectedState example_queue_full \<and> socketOpen example_queue_full)
   \<and> disconnectedBehavior example_queue_full = Queue
   \<and> int (length (queuedRequests example_queue_full)) = maxQueueSize example_queue_full
   \<and> queuedRequests (request PUT ''/remote/batch'' None None example_queue_full)
       = queuedRequests example_queue_full
   \<and> effects (request PUT ''/remote/batch'' None None example_queue_full)
       = [NewWebSocket, RejectCall 3 (QueueLimitReached 2)]
   \<and> map call_of (queuedRequests (submit_all example_calls example_capacity_two))
       = [(GET, ''/remote/info'', None), (PUT, ''/remote/object/call'', Some (Json ''{}''))]
   \<and> settlements (effects (request PUT ''/remote/batch'' None None
         (submit_all example_calls example_capacity_two)))
       = [(3, Failed (QueueLimitReached 2))]"
  using queue_overflow_rejects_newest_keeps_buffered
    [of example_queue_full PUT "''/remote/batch''" None None example_capacity_two example_calls]
  by (simp add: example_queue_full_def example_capacity_two_def example_new_def
      example_calls_def socketOpen_def)



text \<open>
  C5. A frame whose identifier has an entry in the map of pending calls settles that call:
  with a status code from 200 to 299 the call is fulfilled with the body of the frame, with
  any other status code it fails with an error that carries the status code and the body as
  its details. The entry leaves the map.
\<close>

theorem onMessage_settles_by_status_code:
  "map_of (pendingRequests s) i = Some p \<Longrightarrow>
   \<exists>s'. onMessage (Payload (Some i) (Some c) rbody) s = Inr s'
     \<and> settlements (effects s') = settlements (effects s) @
          [(requestId p,
            if 200 \<le> c \<and> c \<le> 299 then Fulfilled rbody
            else Failed (RemoteRequestFailed (Some c) rbody))]
     \<and> pendingRequests s' = AList.delete i (pendingRequests s)
     \<and> map_of (pendingRequests s') i = None"
  by (simp add: onMessage_known map_of_delete_same)

theorem onMessage_settles_witness:
  "map_of (pendingRequests example_three_pending) 2 \<noteq> None
   \<and> (\<exists>s'. onMessage (Payload (Some 2) (Some 204) None) example_three_pending = Inr s'
        \<and> settlements (effects s') = [(2, Fulfilled None)])
   \<and> (\<exists>s'. onMessage (Payload (Some 2) (Some 404) (Some ''gone'')) example_three_pending = Inr s'
        \<and> settlements (effects s') = [(2, Failed (RemoteRequestFailed (Some 404) (Some ''gone'')))])"
proof -
  have p: "map_of (pendingRequests example_three_pending) 2 =
      Some \<lparr>requestId = 2, verb = PUT, url = ''/remote/object/call'',
               body = Some (Json ''{}''), timeoutMs = 50, timer = True\<rparr>"
    by (simp add: example_three_pending_def)
  show ?thesis
    using onMessage_settles_by_status_code [OF p, of 204 None]
      onMessage_settles_by_status_code [OF p, of 404 "Some ''gone''"] p
    by (auto simp: example_three_pending_def)
qed

text \<open>
  C6. A frame whose identifier has no entry in the map of pending calls is dropped:
  \<^verbatim>\<open>onMessage\<close> returns without an error and leaves the whole transport as it was, the map,
  the queue, the connection state and the effects included. An identifier that was settled
  by a frame has no entry any more, so a second frame with it is dropped in the same way.
\<close>

theorem onMessage_unknown_identifier_dropped:
  "(map_of (pendingRequests s) i = None \<longrightarrow>
      onMessage (Payload (Some i) code rbody) s = Inr s)
   \<and> (onMessage (Payload (Some i) code rbody) s = Inr s' \<longrightarrow>
      onMessage (Payload (Some i) code' rbody') s' = Inr s')"
  using onMessage_unknown onMessage_pending_after by blast

theorem onMessage_unknown_identifier_witness:
  "map_of (pendingRequests example_three_pending) 7 = None
   \<and> onMessage (Payload (Some 7) (Some 200) (Some ''true'')) example_three_pending
       = Inr example_three_pending
   \<and> (\<exists>s'. onMessage (Payload (Some 2) (Some 200) None) example_three_pending = Inr s'
         \<and> onMessage (Payload (Some 2) (Some 200) None) s' = Inr s')"
proof -
  have p: "map_of (pendingRequests example_three_pending) 2 =
      Some \<lparr>requestId = 2, verb = PUT, url = ''/remote/object/call'',
               body = Some (Json ''{}''), timeoutMs = 50, timer = True\<rparr>"
    by (simp add: example_three_pending_def)
  obtain s' where s': "onMessage (Payload (Some 2) (Some 200) None) example_three_pending = Inr s'"
    using onMessage_known [OF p] by blast
  have "map_of (pendingRequests example_three_pending) 7 = None"
    by (simp add: example_three_pending_def)
  then show ?thesis
    using onMessage_unknown_identifier_dropped
        [of example_three_pending 7 "Some 200" "Some ''true''"]
      onMessage_unknown_identifier_dropped
        [of example_three_pending 2 "Some 200" None s' "Some 200" None] s'
    by blast
qed

text \<open>
  C7. \<^verbatim>\<open>dispose()\<close> is to settle every pending and buffered call with a disposal error,
  cancel the reconnect timer, stop the heartbeat and close the channel. For the calls, the
  timers and an attached socket it does (lemma \<open>dispose_settles_all_once_and_is_idempotent\<close>),
  and a second call changes nothing. But the channel of a connection attempt that is in
  flight is not closed: \<^verbatim>\<open>dispose\<close> looks at \<^verbatim>\<open>this.socket\<close> only, which is set when a socket
  opens, while the socket of the attempt is known to \<^verbatim>\<open>connect\<close> alone. On the transport
  whose first attempt is in flight, \<^verbatim>\<open>dispose\<close> has no effect on the outside and the attempt
  stays in flight; when its socket opens, the disposed transport is connected, with that
  socket attached and the ping interval running.
\<close>

theorem dispose_leaves_connection_attempt_in_flight:
  "connectPromise example_connecting \<noteq> None
   \<and> effects (dispose example_connecting) = effects example_connecting
   \<and> connectPromise (dispose example_connecting) \<noteq> None
   \<and> disposed (onOpen example_socket (dispose example_connecting))
   \<and> connectedState (onOpen example_socket (dispose example_connecting))
   \<and> pingTimer (onOpen example_socket (dispose example_connecting))
   \<and> socket (onOpen example_socket (dispose example_connecting)) = Some example_socket
   \<and> effects (onOpen example_socket (dispose example_connecting)) =
       [NewWebSocket, SetPingInterval 25000, ConnectResolved]"
  by (simp add: example_connecting_def example_socket_def dispose_def Let_def stopPing_def
      startPing_def rejectPendingRequests_def rejectQueuedRequests_def onOpen_def
      attachSocket_def flush_empty)

text \<open>
  C8. \<open>add\<close> gives a new entry the id \<open>length requests\<close> and puts it at the end of the
  list; so the entries of a builder filled from empty have the ids 0, 1, 2, ..., strictly
  increasing, in the order of the calls that added them, the ids handed back to the caller
  are the same, and \<^verbatim>\<open>getRequests\<close> and \<^verbatim>\<open>toRequestBody\<close> give that list unchanged.
  \<^verbatim>\<open>correlateBatchResponses\<close> makes exactly one result for each request, in the order of
  the requests, each with the id of its request. When the ids of the response entries are
  distinct, a request has the status code and body of the entry with its id, wherever that
  entry stands, and the results do not depend on the order of the entries. (Should several
  entries have the same id, the last of them is taken.) A request with no entry (or a
  response without entries) gets status 0 and no body, and nothing is thrown.
\<close>

theorem batch_ids_sequential_and_responses_correlated:
  "(add v u b requests = Inr (i, requests') \<longrightarrow>
      i = int (length requests)
      \<and> requests' = requests @ [\<lparr>RequestId = i, URL = u, Verb = v, Body = b\<rparr>])
   \<and> (add_all calls [] = (ids, requests) \<longrightarrow>
      map RequestId requests = map int [0..<length requests]
      \<and> ids = map RequestId requests
      \<and> sorted_wrt (<) ids
      \<and> map (\<lambda>item. (Verb item, URL item, Body item)) requests =
          filter (\<lambda>(v, u, b). u \<noteq> []) calls
      \<and> getRequests requests = requests
      \<and> toRequestBody requests = Inr requests)
   \<and> length (correlateBatchResponses requests responses) = length requests
   \<and> map result_request (correlateBatchResponses requests responses) = requests
   \<and> map result_requestId (correlateBatchResponses requests responses) = map RequestId requests
   \<and> (n < length requests \<and> distinct (map response_RequestId items) \<and> item \<in> set items
        \<and> response_RequestId item = RequestId (requests ! n) \<longrightarrow>
      correlateBatchResponses requests (Some items) ! n =
        \<lparr>result_requestId = RequestId (requests ! n),
         statusCode = (case ResponseCode item of None \<Rightarrow> 0 | Some c \<Rightarrow> c),
         result_body = ResponseBody item, result_request = requests ! n\<rparr>)
   \<and> (n < length requests \<and> RequestId (requests ! n) \<notin> response_RequestId ` set items \<longrightarrow>
      correlateBatchResponses requests (Some items) ! n =
        \<lparr>result_requestId = RequestId (requests ! n), statusCode = 0,
         result_body = None, result_request = requests ! n\<rparr>)
   \<and> (n < length requests
        \<and> find (\<lambda>x. response_RequestId x = RequestId (requests ! n)) (rev items) = Some item \<longrightarrow>
      correlateBatchResponses requests (Some items) ! n =
        \<lparr>result_requestId = RequestId (requests ! n),
         statusCode = (case ResponseCode item of None \<Rightarrow> 0 | Some c \<Rightarrow> c),
         result_body = ResponseBody item, result_request = requests ! n\<rparr>)
   \<and> (n < length requests \<longrightarrow>
      correlateBatchResponses requests None ! n =
        \<lparr>result_requestId = RequestId (requests ! n), statusCode = 0,
         result_body = None, result_request = requests ! n\<rparr>)
   \<and> (distinct (map response_RequestId items) \<and> mset items' = mset items \<longrightarrow>
      correlateBatchResponses requests (Some items') =
        correlateBatchResponses requests (Some items))"
proof (intro conjI impI)
  assume "add v u b requests = Inr (i, requests')"
  then show "i = int (length requests)"
    "requests' = requests @ [\<lparr>RequestId = i, URL = u, Verb = v, Body = b\<rparr>]"
    by (auto simp: add_result split: if_splits)
next
  assume a: "add_all calls [] = (ids, requests)"
  have e: "map RequestId ([] :: 'a BatchRequestItem list) =
      map int [0..<length ([] :: 'a BatchRequestItem list)]"
    by simp
  note r = add_all_ids [OF e a, unfolded list.map(1) append_Nil list.size(3) drop_0]
  from r have f: "map RequestId requests = map int [0..<length requests]"
    "map RequestId requests = ids"
    "map (\<lambda>item. (Verb item, URL item, Body item)) requests =
       filter (\<lambda>(v, u, b). u \<noteq> []) calls"
    by blast+
  show "map RequestId requests = map int [0..<length requests]" by (rule f(1))
  show "ids = map RequestId requests" by (rule f(2) [symmetric])
  show "sorted_wrt (<) ids" unfolding f(2) [symmetric] f(1) by (rule sorted_ids)
  show "map (\<lambda>item. (Verb item, URL item, Body item)) requests =
       filter (\<lambda>(v, u, b). u \<noteq> []) calls" by (rule f(3))
  show "getRequests requests = requests" by (simp add: getRequests_def)
  have "\<forall>item \<in> set requests. RequestId item \<ge> 0 \<and> URL item \<noteq> []"
  proof
    fix item assume i: "item \<in> set requests"
    then have "RequestId item \<in> set (map int [0..<length requests])"
      unfolding f(1) [symmetric] by simp
    then have "RequestId item \<ge> 0" by auto
    moreover have "(Verb item, URL item, Body item) \<in> set (filter (\<lambda>(v, u, b). u \<noteq> []) calls)"
      unfolding f(3) [symmetric] using i by force
    then have "URL item \<noteq> []" by auto
    ultimately show "RequestId item \<ge> 0 \<and> URL item \<noteq> []" by simp
  qed
  then show "toRequestBody requests = Inr requests"
    by (simp add: toRequestBody_def parse_items_ok)
next
  show "length (correlateBatchResponses requests responses) = length requests"
    "map result_request (correlateBatchResponses requests responses) = requests"
    "map result_requestId (correlateBatchResponses requests responses) = map RequestId requests"
    by (rule correlate_shape)+
next
  assume "n < length requests \<and> distinct (map response_RequestId items) \<and> item \<in> set items
        \<and> response_RequestId item = RequestId (requests ! n)"
  then show "correlateBatchResponses requests (Some items) ! n =
        \<lparr>result_requestId = RequestId (requests ! n),
         statusCode = (case ResponseCode item of None \<Rightarrow> 0 | Some c \<Rightarrow> c),
         result_body = ResponseBody item, result_request = requests ! n\<rparr>"
    using byRequestId_distinct [of items item] by (simp add: correlate_nth)
next
  assume "n < length requests \<and> RequestId (requests ! n) \<notin> response_RequestId ` set items"
  then show "correlateBatchResponses requests (Some items) ! n =
        \<lparr>result_requestId = RequestId (requests ! n), statusCode = 0,
         result_body = None, result_request = requests ! n\<rparr>"
    by (simp add: correlate_nth byRequestId_None)
next
  assume "n < length requests
        \<and> find (\<lambda>x. response_RequestId x = RequestId (requests ! n)) (rev items) = Some item"
  then show "correlateBatchResponses requests (Some items) ! n =
        \<lparr>result_requestId = RequestId (requests ! n),
         statusCode = (case ResponseCode item of None \<Rightarrow> 0 | Some c \<Rightarrow> c),
         result_body = ResponseBody item, result_request = requests ! n\<rparr>"
    by (simp add: correlate_nth byRequestId_find)
next
  assume "n < length requests"
  then show "correlateBatchResponses requests None ! n =
        \<lparr>result_requestId = RequestId (requests ! n), statusCode = 0,
         result_body = None, result_request = requests ! n\<rparr>"
    by (simp add: correlate_no_responses)
next
  assume "distinct (map response_RequestId items) \<and> mset items' = mset items"
  then have "byRequestId items' = byRequestId items" by (intro byRequestId_perm) auto
  then show "correlateBatchResponses requests (Some items') =
        correlateBatchResponses requests (Some items)"
    by (simp add: correlateBatchResponses_def)
qed

theorem batch_witness:
  "add_all example_batch_calls [] = ([0, 1], example_batch_requests)
   \<and> map RequestId example_batch_requests = [0, 1]
   \<and> toRequestBody example_batch_requests = Inr example_batch_requests
   \<and> distinct (map response_RequestId example_responses)
   \<and> correlateBatchResponses example_batch_requests (Some example_responses) ! 0 =
       \<lparr>result_requestId = 0, statusCode = 200, result_body = Some ''true'',
        result_request = example_batch_requests ! 0\<rparr>
   \<and> correlateBatchResponses example_batch_requests (Some example_partial_responses) ! 0 =
       \<lparr>result_requestId = 0, statusCode = 0, result_body = None,
        result_request = example_batch_requests ! 0\<rparr>
   \<and> correlateBatchResponses example_batch_requests (Some example_partial_responses) ! 1 =
       \<lparr>result_requestId = 1, statusCode = 204, result_body = None,
        result_request = example_batch_requests ! 1\<rparr>
   \<and> length (correlateBatchResponses example_batch_requests (Some example_partial_responses)) = 2
   \<and> correlateBatchResponses example_batch_requests (Some (rev example_responses)) =
       correlateBatchResponses example_batch_requests (Some example_responses)
   \<and> add GET ''/remote/info'' None example_batch_requests =
       Inr (2, example_batch_requests @
                 [\<lparr>RequestId = 2, URL = ''/remote/info'', Verb = GET, Body = None\<rparr>])
   \<and> (2 :: int) = int (length example_batch_requests)"
proof -
  note t = batch_ids_sequential_and_responses_correlated
  have a: "add GET ''/remote/info'' None example_batch_requests =
       Inr (2, example_batch_requests @
                 [\<lparr>RequestId = 2, URL = ''/remote/info'', Verb = GET, Body = None\<rparr>])"
    by (simp add: add_result example_batch_requests_def)
  have 7: "(2 :: int) = int (length example_batch_requests)"
    using t [where calls = example_batch_calls and ids = "[0, 1]"
        and requests = example_batch_requests and v = GET and u = "''/remote/info''"
        and b = None and i = 2
        and requests' = "example_batch_requests @
                 [\<lparr>RequestId = 2, URL = ''/remote/info'', Verb = GET, Body = None\<rparr>]"
        and responses = "Some example_partial_responses" and n = 0 and items = "[]"
        and items' = "[]"
        and item = "\<lparr>response_RequestId = 0, ResponseCode = Some 200, ResponseBody = Some ''true''\<rparr>"] a
    by blast
  have b: "add_all example_batch_calls [] = ([0, 1], example_batch_requests)"
    by (rule example_batch_built)
  have 1: "map RequestId example_batch_requests = [0, 1]"
    "toRequestBody example_batch_requests = Inr example_batch_requests"
    using t [where calls = example_batch_calls and ids = "[0, 1]"
        and requests = example_batch_requests and v = PUT and u = "''/remote/info''"
        and b = None and i = 0 and requests' = "[]"
        and responses = "Some example_partial_responses" and n = 0 and items = "[]"
        and items' = "[]" and item = "\<lparr>response_RequestId = 0, ResponseCode = Some 200, ResponseBody = Some ''true''\<rparr>"] b
    by (simp_all add: example_batch_requests_def)
  have d: "distinct (map response_RequestId example_responses)"
    by (simp add: example_responses_def)
  have 2: "correlateBatchResponses example_batch_requests (Some example_responses) ! 0 =
       \<lparr>result_requestId = 0, statusCode = 200, result_body = Some ''true'',
        result_request = example_batch_requests ! 0\<rparr>"
    using t [where calls = example_batch_calls and ids = "[0, 1]"
        and requests = example_batch_requests and v = PUT and u = "''/remote/info''"
        and b = None and i = 0 and requests' = "[]"
        and responses = "Some example_partial_responses" and n = 0 and items = example_responses
        and items' = "[]" and item = "\<lparr>response_RequestId = 0, ResponseCode = Some 200, ResponseBody = Some ''true''\<rparr>"]
    by (simp add: example_batch_requests_def example_responses_def)
  have 3: "correlateBatchResponses example_batch_requests (Some example_partial_responses) ! 0 =
       \<lparr>result_requestId = 0, statusCode = 0, result_body = None,
        result_request = example_batch_requests ! 0\<rparr>"
    using t [where calls = example_batch_calls and ids = "[0, 1]"
        and requests = example_batch_requests and v = PUT and u = "''/remote/info''"
        and b = None and i = 0 and requests' = "[]"
        and responses = "Some example_partial_responses" and n = 0 and items = example_partial_responses
        and items' = "[]" and item = "\<lparr>response_RequestId = 0, ResponseCode = Some 200, ResponseBody = Some ''true''\<rparr>"]
    by (simp add: example_batch_requests_def example_partial_responses_def)
  have 4: "correlateBatchResponses example_batch_requests (Some example_partial_responses) ! 1 =
       \<lparr>result_requestId = 1, statusCode = 204, result_body = None,
        result_request = example_batch_requests ! 1\<rparr>"
    using t [where calls = example_batch_calls and ids = "[0, 1]"
        and requests = example_batch_requests and v = PUT and u = "''/remote/info''"
        and b = None and i = 0 and requests' = "[]"
        and responses = "Some example_partial_responses" and n = 1 and items = example_partial_responses
        and items' = "[]" and item = "\<lparr>response_RequestId = 1, ResponseCode = Some 204, ResponseBody = None\<rparr>"]
    by (simp add: example_batch_requests_def example_partial_responses_def)
  have 5: "length (correlateBatchResponses example_batch_requests
        (Some example_partial_responses)) = 2"
    using t [where calls = example_batch_calls and ids = "[0, 1]"
        and requests = example_batch_requests and v = PUT and u = "''/remote/info''"
        and b = None and i = 0 and requests' = "[]"
        and responses = "Some example_partial_responses" and n = 0 and items = example_partial_responses
        and items' = "[]" and item = "\<lparr>response_RequestId = 0, ResponseCode = Some 200, ResponseBody = Some ''true''\<rparr>"]
    by (simp add: example_batch_requests_def)
  have 6: "correlateBatchResponses example_batch_requests (Some (rev example_responses)) =
       correlateBatchResponses example_batch_requests (Some example_responses)"
    using t [where calls = example_batch_calls and ids = "[0, 1]"
        and requests = example_batch_requests and v = PUT and u = "''/remote/info''"
        and b = None and i = 0 and requests' = "[]"
        and responses = "Some example_partial_responses" and n = 0 and items = example_responses
        and items' = "rev example_responses" and item = "\<lparr>response_RequestId = 0, ResponseCode = Some 200, ResponseBody = Some ''true''\<rparr>"]
    by (simp add: example_responses_def)
  show ?thesis by (intro conjI b 1 d 2 3 4 5 6 a 7)
qed



text \<open>
  C10. On a disposed transport \<^verbatim>\<open>connect()\<close> throws "Cannot connect a disposed transport"
  and changes nothing: no socket is made, no attempt is in flight afterwards. After
  \<^verbatim>\<open>dispose()\<close> the transport is disconnected, and it is still so after the call.
\<close>

theorem connect_after_dispose_throws:
  "(disposed s \<longrightarrow> connect s = (Threw CannotConnectDisposed, s))
   \<and> (disposed s \<and> \<not> connectedState s \<longrightarrow> \<not> connectedState (snd (connect s)))
   \<and> connect (dispose s) = (Threw CannotConnectDisposed, dispose s)
   \<and> \<not> connectedState (snd (connect (dispose s)))
   \<and> connectPromise (snd (connect (dispose s))) = connectPromise s
   \<and> effects (snd (connect (dispose s))) = effects (dispose s)"
  by (simp add: connect_def dispose_fields)

theorem connect_after_dispose_witness:
  "disposed (dispose example_three_pending)
   \<and> connect (dispose example_three_pending) =
       (Threw CannotConnectDisposed, dispose example_three_pending)
   \<and> \<not> connectedState (snd (connect (dispose example_three_pending)))"
  using connect_after_dispose_throws [of "dispose example_three_pending"]
    connect_after_dispose_throws [of example_three_pending]
  by (simp add: dispose_fields)

end
